theory Spec2Isabelle
  imports Complex_Main "HOL-Library.Sublist" "HOL-Library.Char_ord" "HOL-Library.List_Lexorder" "HOL-Library.Option_ord"
begin

section \<open>Python values shared by the notebooks\<close>

text \<open>
  The exceptions the notebook cells can raise. \<open>SystemExit\<close> and \<open>KeyboardInterrupt\<close>
  derive from \<open>BaseException\<close> only, so an \<open>except Exception\<close> clause lets them pass.
\<close>

datatype py_error =
    KeyError
  | IndexError
  | TypeError
  | ValueError
  | AssertionError
  | NameError string
  | OtherException string
  | SystemExit int
  | KeyboardInterrupt

fun is_Exception :: "py_error \<Rightarrow> bool" where
  "is_Exception (SystemExit c) = False"
| "is_Exception KeyboardInterrupt = False"
| "is_Exception e = True"

text \<open>
  A cell either runs to its end or stops at an uncaught exception; in both cases the
  effects made so far (log lines, files on disk) stay.
\<close>

datatype 's outcome = Done 's | Raised py_error 's

text \<open>
  The log lines the cells write: \<open>logging.error(f"No data created for file_id {file_id}")\<close>,
  \<open>logging.exception(e)\<close>, and the three messages of the checkpoint loader (each with
  the model name and a path or pattern).
\<close>

datatype log_entry =
    NoDataCreated int
  | LogException py_error
  | NoCheckpointsFound string string
  | LoadingCheckpoint string string
  | MultipleCheckpoints string string

fun state_of :: "'s outcome \<Rightarrow> 's" where
  "state_of (Done s) = s"
| "state_of (Raised e s) = s"

fun error_of :: "'s outcome \<Rightarrow> py_error option" where
  "error_of (Done s) = None"
| "error_of (Raised e s) = Some e"

datatype key_mode = MAJOR | MINOR

text \<open>The fields of a chord and of a key that the notebooks read.\<close>

record chord =
  root :: int
  key_tonic :: int
  key_mode :: key_mode
  chord_type :: nat
  inversion :: int

record piece_key =
  local_tonic :: int
  global_tonic :: int
  local_mode :: key_mode
  global_mode :: key_mode

text \<open>A \<open>ScorePiece\<close>, as far as the notebooks call its getters.\<close>

record score_piece =
  get_chords :: "chord list"
  get_keys :: "piece_key list"
  get_key_change_indices :: "nat list"

text \<open>One row of \<open>files_df\<close>: the index value and the two columns the loops read.\<close>

record file_row =
  file_id :: int
  corpus_name :: string
  file_name :: string

text \<open>The three frames \<open>load_clean_corpus_dfs\<close> returns beside \<open>files_df\<close>, indexed by file id.\<close>

record ('n, 'c, 'm) corpus =
  notes_df :: "int \<rightharpoonup> 'n"
  chords_df :: "int \<rightharpoonup> 'c"
  measures_df :: "int \<rightharpoonup> 'm"

text \<open>\<open>df.loc[file_id]\<close> on a frame indexed by file id raises \<open>KeyError\<close> for an id it lacks.\<close>

definition loc :: "(int \<rightharpoonup> 'r) \<Rightarrow> int \<Rightarrow> py_error + 'r" where
  "loc df i = (case df i of None \<Rightarrow> Inl KeyError | Some r \<Rightarrow> Inr r)"

section \<open>The per-piece export loop of \<open>Selim_project_data.ipynb\<close>\<close>

text \<open>
  What the cell takes from outside the notebook: the three corpus frames, and the library
  functions \<open>get_score_piece_from_data_frames\<close> (called with \<open>use_relative\<close> and
  \<open>name\<close>; the other keyword arguments are the same constants in both calls),
  \<open>Chord.to_pitch_type(PitchType.MIDI)\<close> and the table \<open>CHORD_TYPE_TO_STRING\<close>.
\<close>

record ('n, 'c, 'm) selim_env =
  selim_corpus :: "('n, 'c, 'm) corpus"
  get_score_piece_from_data_frames :: "'n \<Rightarrow> 'c \<Rightarrow> 'm \<Rightarrow> bool \<Rightarrow> string \<Rightarrow> py_error + score_piece"
  to_pitch_type_MIDI :: "chord \<Rightarrow> py_error + chord"
  CHORD_TYPE_TO_STRING :: "nat \<rightharpoonup> string"

text \<open>The dictionary of columns \<open>chord_data\<close>, turned into the data frame that is written.\<close>

record chord_data =
  col_root :: "int list"
  col_relative_root :: "int list"
  col_relative_mode :: "key_mode list"
  col_type :: "string list"
  col_inversion :: "int list"
  col_tonic :: "int list"
  col_mode :: "key_mode list"

definition empty_chord_data :: chord_data where
  "empty_chord_data =
     \<lparr>col_root = [], col_relative_root = [], col_relative_mode = [], col_type = [],
      col_inversion = [], col_tonic = [], col_mode = []\<rparr>"

text \<open>The state the loop changes: the log, and the files under \<open>Selim_data/\<close> by name.\<close>

record selim_state =
  selim_log :: "log_entry list"
  selim_files :: "string \<rightharpoonup> chord_data"

text \<open>
  One call \<open>get_score_piece_from_data_frames(notes_df.loc[file_id], chords_df.loc[file_id],
  measures_df.loc[file_id], ..., use_relative=..., name=name, ...)\<close>: the arguments are
  evaluated left to right, then the function is called.
\<close>

definition load_piece ::
  "('n, 'c, 'm) selim_env \<Rightarrow> int \<Rightarrow> bool \<Rightarrow> string \<Rightarrow> py_error + score_piece" where
  "load_piece env fid use_relative name =
     (case loc (notes_df (selim_corpus env)) fid of
        Inl e \<Rightarrow> Inl e
      | Inr n \<Rightarrow>
          (case loc (chords_df (selim_corpus env)) fid of
             Inl e \<Rightarrow> Inl e
           | Inr c \<Rightarrow>
               (case loc (measures_df (selim_corpus env)) fid of
                  Inl e \<Rightarrow> Inl e
                | Inr m \<Rightarrow> get_score_piece_from_data_frames env n c m use_relative name)))"

text \<open>The body of the \<open>try\<close>: the relative piece first, then the local piece.\<close>

definition load_both ::
  "('n, 'c, 'm) selim_env \<Rightarrow> int \<Rightarrow> string \<Rightarrow> py_error + score_piece \<times> score_piece" where
  "load_both env fid name =
     (case load_piece env fid True name of
        Inl e \<Rightarrow> Inl e
      | Inr relative_piece \<Rightarrow>
          (case load_piece env fid False name of
             Inl e \<Rightarrow> Inl e
           | Inr local_piece \<Rightarrow> Inr (relative_piece, local_piece)))"

text \<open>
  The loop over \<open>zip(relative_piece.get_chords(), local_piece.get_chords())\<close>. Both chords
  are converted first; the look-up in \<open>CHORD_TYPE_TO_STRING\<close> raises \<open>KeyError\<close> for a
  missing type.
\<close>

fun fill_chord_data ::
  "('n, 'c, 'm) selim_env \<Rightarrow> (chord \<times> chord) list \<Rightarrow> chord_data \<Rightarrow> py_error + chord_data" where
  "fill_chord_data env [] d = Inr d"
| "fill_chord_data env ((ch, local_ch) # rest) d =
     (case to_pitch_type_MIDI env ch of
        Inl e \<Rightarrow> Inl e
      | Inr ch' \<Rightarrow>
          (case to_pitch_type_MIDI env local_ch of
             Inl e \<Rightarrow> Inl e
           | Inr local_ch' \<Rightarrow>
               (case CHORD_TYPE_TO_STRING env (chord_type ch') of
                  None \<Rightarrow> Inl KeyError
                | Some ty \<Rightarrow>
                    fill_chord_data env rest
                      (d\<lparr>col_root := col_root d @ [root ch'],
                         col_relative_root := col_relative_root d @ [key_tonic ch'],
                         col_relative_mode := col_relative_mode d @ [key_mode ch'],
                         col_type := col_type d @ [ty],
                         col_inversion := col_inversion d @ [inversion ch'],
                         col_tonic := col_tonic d @ [key_tonic local_ch'],
                         col_mode := col_mode d @ [key_mode local_ch']\<rparr>))))"

definition piece_name :: "file_row \<Rightarrow> string" where
  "piece_name r = corpus_name r @ ''..'' @ file_name r"

text \<open>
  The \<open>for file_id, file_row in files_df.iterrows()\<close> loop. A failure of the \<open>try\<close> body
  that is an \<open>Exception\<close> is logged twice (\<open>logging.error\<close>, \<open>logging.exception\<close>) and
  the loop goes on; the \<open>assert\<close> on the two chord counts and the rest of the body stand
  outside the \<open>try\<close>, so what they raise ends the loop. Assertions are taken to be
  enabled (the interpreter's default), and \<open>df.to_csv\<close> to succeed: it replaces the file
  of that name.
\<close>

fun selim_loop ::
  "('n, 'c, 'm) selim_env \<Rightarrow> file_row list \<Rightarrow> selim_state \<Rightarrow> selim_state outcome" where
  "selim_loop env [] st = Done st"
| "selim_loop env (r # rs) st =
     (case load_both env (file_id r) (piece_name r) of
        Inl e \<Rightarrow>
          if is_Exception e
          then selim_loop env rs
                 (st\<lparr>selim_log := selim_log st @
                    [NoDataCreated (file_id r), LogException e]\<rparr>)
          else Raised e st
      | Inr (relative_piece, local_piece) \<Rightarrow>
          if length (get_chords relative_piece) \<noteq> length (get_chords local_piece)
          then Raised AssertionError st
          else
            (case fill_chord_data env
                    (zip (get_chords relative_piece) (get_chords local_piece)) empty_chord_data of
               Inl e \<Rightarrow> Raised e st
             | Inr d \<Rightarrow>
                 selim_loop env rs (st\<lparr>selim_files := (selim_files st)(piece_name r \<mapsto> d)\<rparr>)))"

section \<open>The per-piece export loop of the course-data notebook\<close>

text \<open>
  From outside the notebook: the corpus frames, the constructor \<open>ScorePiece\<close> (its keyword
  arguments are constants of the cell; \<open>name\<close> is a function of the row, which stands for
  it here), and \<open>hu.get_scale_degree_from_interval(interval, mode, PitchType.TPC)\<close>.
\<close>

record ('n, 'c, 'm) course_env =
  course_corpus :: "('n, 'c, 'm) corpus"
  ScorePiece :: "'n \<Rightarrow> 'c \<Rightarrow> 'm \<Rightarrow> file_row \<Rightarrow> py_error + score_piece"
  get_scale_degree_from_interval :: "int \<Rightarrow> key_mode \<Rightarrow> py_error + string"

text \<open>The log, and the lines of each \<open>key/<composer>.csv\<close> file that exists.\<close>

record course_state =
  course_log :: "log_entry list"
  key_files :: "string \<rightharpoonup> string list"

definition new_piece ::
  "('n, 'c, 'm) course_env \<Rightarrow> file_row \<Rightarrow> py_error + score_piece" where
  "new_piece env r =
     (case loc (notes_df (course_corpus env)) (file_id r) of
        Inl e \<Rightarrow> Inl e
      | Inr n \<Rightarrow>
          (case loc (chords_df (course_corpus env)) (file_id r) of
             Inl e \<Rightarrow> Inl e
           | Inr c \<Rightarrow>
               (case loc (measures_df (course_corpus env)) (file_id r) of
                  Inl e \<Rightarrow> Inl e
                | Inr m \<Rightarrow> ScorePiece env n c m r)))"

text \<open>\<open>str(key.local_mode).split('.')[1]\<close> of the enumeration member \<open>KeyMode.MAJOR\<close>.\<close>

fun mode_name :: "key_mode \<Rightarrow> string" where
  "mode_name MAJOR = ''MAJOR''"
| "mode_name MINOR = ''MINOR''"

text \<open>The list comprehension \<open>key_symbols\<close> over \<open>piece.get_keys()\<close>.\<close>

fun key_symbols :: "('n, 'c, 'm) course_env \<Rightarrow> piece_key list \<Rightarrow> py_error + string list" where
  "key_symbols env [] = Inr []"
| "key_symbols env (k # ks) =
     (case get_scale_degree_from_interval env (local_tonic k - global_tonic k) (global_mode k) of
        Inl e \<Rightarrow> Inl e
      | Inr deg \<Rightarrow>
          (case key_symbols env ks of
             Inl e \<Rightarrow> Inl e
           | Inr syms \<Rightarrow> Inr ((deg @ '':'' @ mode_name (local_mode k)) # syms)))"

text \<open>\<open>open(path, "a+")\<close> creates the file when it is missing and keeps its lines otherwise.\<close>

definition open_append :: "string \<Rightarrow> (string \<rightharpoonup> string list) \<Rightarrow> (string \<rightharpoonup> string list)" where
  "open_append path fs = (case fs path of None \<Rightarrow> fs(path \<mapsto> []) | Some ls \<Rightarrow> fs)"

text \<open>
  The inner loop \<open>for file_id, file_row in composer_df.iterrows()\<close>. After a piece is built
  the cell opens the composer's key file, computes \<open>key_symbols\<close>, and evaluates
  \<open>key_labels[piece.get_keys()[0].global_mode].add([symbol for symbol in key_symbols])\<close>:
  the subscript \<open>[0]\<close> raises \<open>IndexError\<close> on a piece without keys, and \<open>set.add\<close> of a list
  raises \<open>TypeError\<close> (a list is unhashable). Both are outside the \<open>try\<close>, so the statements
  after this one (the writes to the key and chord files) are never reached. The key file is
  named by the composer, under the directory \<open>key_dir\<close>.
\<close>

fun course_file_loop ::
  "('n, 'c, 'm) course_env \<Rightarrow> string \<Rightarrow> file_row list \<Rightarrow> course_state \<Rightarrow> course_state outcome" where
  "course_file_loop env composer [] st = Done st"
| "course_file_loop env composer (r # rs) st =
     (case new_piece env r of
        Inl e \<Rightarrow>
          if is_Exception e
          then course_file_loop env composer rs
                 (st\<lparr>course_log := course_log st @ [NoDataCreated (file_id r), LogException e]\<rparr>)
          else Raised e st
      | Inr piece \<Rightarrow>
          (let st1 = st\<lparr>key_files := open_append (composer @ ''.csv'') (key_files st)\<rparr> in
           case key_symbols env (get_keys piece) of
             Inl e \<Rightarrow> Raised e st1
           | Inr syms \<Rightarrow>
               (case get_keys piece of
                  [] \<Rightarrow> Raised IndexError st1
                | k # ks \<Rightarrow> Raised TypeError st1)))"

text \<open>
  The outer loop \<open>for composer in composers\<close>, with
  \<open>composer_df = files_df.loc[files_df["corpus_name"].str.startswith(composer)]\<close>.
\<close>

fun course_loop ::
  "('n, 'c, 'm) course_env \<Rightarrow> file_row list \<Rightarrow> string list \<Rightarrow> course_state \<Rightarrow> course_state outcome" where
  "course_loop env files_df [] st = Done st"
| "course_loop env files_df (composer # composers) st =
     (case course_file_loop env composer
             (filter (\<lambda>r. prefix composer (corpus_name r)) files_df) st of
        Raised e st' \<Rightarrow> Raised e st'
      | Done st' \<Rightarrow> course_loop env files_df composers st')"

section \<open>The checkpoint loader of the joint-model notebook\<close>

text \<open>\<open>os.path.join(a, *p)\<close> on POSIX: a component that starts with \<open>/\<close> restarts the path.\<close>

definition join_step :: "string \<Rightarrow> string \<Rightarrow> string" where
  "join_step path b =
     (if b \<noteq> [] \<and> hd b = CHR ''/'' then b
      else if path = [] \<or> last path = CHR ''/'' then path @ b
      else path @ ''/'' @ b)"

definition os_path_join :: "string \<Rightarrow> string list \<Rightarrow> string" where
  "os_path_join a p = foldl join_step a p"

definition checkpoint_pattern :: "string \<Rightarrow> string" where
  "checkpoint_pattern model =
     os_path_join ''checkpoints''
       [model, ''lightning_logs'', ''version_*'', ''checkpoints'', ''*.ckpt'']"

text \<open>
  The cell that fills \<open>model_paths\<close>: one pattern per key of \<open>MODEL_CLASSES\<close> other than
  \<open>"icm"\<close>, then the path of the initial-chord prior.
\<close>

fun fill_model_paths :: "string list \<Rightarrow> (string \<rightharpoonup> string) \<Rightarrow> (string \<rightharpoonup> string)" where
  "fill_model_paths [] paths = paths"
| "fill_model_paths (model # rest) paths =
     (if model = ''icm'' then fill_model_paths rest paths
      else fill_model_paths rest (paths(model \<mapsto> checkpoint_pattern model)))"

definition model_paths :: "string list \<Rightarrow> (string \<rightharpoonup> string)" where
  "model_paths names =
     (fill_model_paths names Map.empty)
       (''icm'' \<mapsto> os_path_join ''checkpoints'' [''icm'', ''initial_chord_prior.json''])"

text \<open>
  From outside the notebook: the table \<open>MODEL_CLASSES\<close> (a dictionary, here its items in
  order), \<open>glob\<close> on the file system, the class method \<open>load_from_checkpoint\<close>, the method
  \<open>freeze\<close> (it changes the model in place, and like the other calls it may raise) and the
  constructor \<open>icm.SimpleInitialChordModel\<close>.
\<close>

record ('cls, 'mdl) loader_env =
  MODEL_CLASSES :: "(string \<times> 'cls) list"
  glob :: "string \<Rightarrow> string list"
  load_from_checkpoint :: "'cls \<Rightarrow> string \<Rightarrow> py_error + 'mdl"
  freeze :: "'mdl \<Rightarrow> py_error + 'mdl"
  SimpleInitialChordModel :: "string \<Rightarrow> py_error + 'mdl"

record 'mdl loader_state =
  loader_log :: "log_entry list"
  models :: "string \<rightharpoonup> 'mdl"

text \<open>
  The body of \<open>for model_name, model_class in MODEL_CLASSES.items()\<close> for a name other
  than \<open>"icm"\<close>: \<open>sorted(glob(...))\<close>; on an empty list \<open>logging.error(...)\<close> and then
  \<open>sys.exit(2)\<close>; the choice of \<open>possible_checkpoints[0]\<close> or \<open>possible_checkpoints[-1]\<close>;
  the load, whose result is stored in \<open>models\<close>; and \<open>models[model_name].freeze()\<close> on the
  stored model. No cell of the notebook imports \<open>sys\<close>, so evaluating the name in
  \<open>sys.exit(2)\<close> raises \<open>NameError\<close> before anything is called.
\<close>

definition load_one ::
  "('cls, 'mdl) loader_env \<Rightarrow> (string \<rightharpoonup> string) \<Rightarrow> string \<Rightarrow> 'cls \<Rightarrow>
     'mdl loader_state \<Rightarrow> 'mdl loader_state outcome" where
  "load_one env paths model_name model_class st =
     (case paths model_name of
        None \<Rightarrow> Raised KeyError st
      | Some pattern \<Rightarrow>
          (let possible_checkpoints = sort (glob env pattern) in
           if length possible_checkpoints = 0
           then Raised (NameError ''sys'')
                  (st\<lparr>loader_log := loader_log st @ [NoCheckpointsFound model_name pattern]\<rparr>)
           else
             (let checkpoint =
                    (if length possible_checkpoints = 1 then possible_checkpoints ! 0
                     else last possible_checkpoints);
                  st1 = st\<lparr>loader_log := loader_log st @
                          [if length possible_checkpoints = 1
                           then LoadingCheckpoint checkpoint model_name
                           else MultipleCheckpoints model_name checkpoint]\<rparr>
              in case load_from_checkpoint env model_class checkpoint of
                   Inl e \<Rightarrow> Raised e st1
                 | Inr m \<Rightarrow>
                     (let st2 = st1\<lparr>models := (models st1)(model_name \<mapsto> m)\<rparr>
                      in case freeze env m of
                           Inl e \<Rightarrow> Raised e st2
                         | Inr frozen \<Rightarrow>
                             Done (st2\<lparr>models := (models st2)(model_name \<mapsto> frozen)\<rparr>)))))"

fun load_loop ::
  "('cls, 'mdl) loader_env \<Rightarrow> (string \<rightharpoonup> string) \<Rightarrow> (string \<times> 'cls) list \<Rightarrow>
     'mdl loader_state \<Rightarrow> 'mdl loader_state outcome" where
  "load_loop env paths [] st = Done st"
| "load_loop env paths ((model_name, model_class) # rest) st =
     (if model_name = ''icm'' then load_loop env paths rest st
      else
        (case load_one env paths model_name model_class st of
           Raised e st' \<Rightarrow> Raised e st'
         | Done st' \<Rightarrow> load_loop env paths rest st'))"

text \<open>The two cells in order, ending with \<open>models["icm"] = icm.SimpleInitialChordModel(...)\<close>.\<close>

definition load_models ::
  "('cls, 'mdl) loader_env \<Rightarrow> 'mdl loader_state \<Rightarrow> 'mdl loader_state outcome" where
  "load_models env st =
     (let paths = model_paths (map fst (MODEL_CLASSES env)) in
      case load_loop env paths (MODEL_CLASSES env) st of
        Raised e st' \<Rightarrow> Raised e st'
      | Done st' \<Rightarrow>
          (case paths ''icm'' of
             None \<Rightarrow> Raised KeyError st'
           | Some path \<Rightarrow>
               (let st1 = st'\<lparr>loader_log := loader_log st' @ [LoadingCheckpoint path ''icm'']\<rparr>
                in case SimpleInitialChordModel env path of
                     Inl e \<Rightarrow> Raised e st1
                   | Inr m \<Rightarrow> Done (st1\<lparr>models := (models st1)(''icm'' \<mapsto> m)\<rparr>))))"

section \<open>The decoding engine\<close>

text \<open>
  The notebooks only call the engine (\<open>HarmonicInferenceModel.get_chord_ranges\<close>,
  \<open>State.chord_transition\<close>, \<open>State.key_transition\<close>); its modules
  \<open>harmonic_inference.models.joint_model\<close> and
  \<open>harmonic_inference.utils.beam_search_utils\<close> are not among the sources. The
  definitions of this section follow the specification's description of it.
\<close>

text \<open>
  Modelled from the spec: the configuration of \<open>HarmonicInferenceModel\<close> (section 6:
  \<open>min_chord_change_prob\<close>, \<open>max_no_chord_change_prob\<close>, \<open>beam_width\<close>,
  \<open>max_chord_branching_factor\<close>, \<open>max_key_branching_factor\<close>). The notebook sets the
  two thresholds to 0.15 and 0.85.
\<close>

record decoder_config =
  min_chord_change_prob :: real
  max_no_chord_change_prob :: real
  beam_width :: nat
  max_chord_branching_factor :: nat
  max_key_branching_factor :: nat

text \<open>
  Modelled from the spec: a log-probability, the logarithm of a probability. \<open>None\<close> is
  the logarithm of 0 (minus infinity), below every other value and absorbing in sums.
\<close>

type_synonym logp = "real option"

definition log_p :: "real \<Rightarrow> logp" where
  "log_p p = (if p \<le> 0 then None else Some (ln p))"

fun lp_add :: "logp \<Rightarrow> logp \<Rightarrow> logp" where
  "lp_add (Some a) (Some b) = Some (a + b)"
| "lp_add a b = None"

subsection \<open>The range proposer\<close>

text \<open>
  Modelled from the spec: the two thresholds of the range proposer \<open>get_chord_ranges\<close>
  (section 4.2). A frame whose change probability is below \<open>min_chord_change_prob\<close> is
  never a boundary, a frame whose change probability is above \<open>max_no_chord_change_prob\<close>
  always is. \<open>allowed_decision cfg p b\<close> says that the decision \<open>b\<close> (boundary or not) at
  a frame of change probability \<open>p\<close> respects both rules.
\<close>

definition allowed_decision :: "decoder_config \<Rightarrow> real \<Rightarrow> bool \<Rightarrow> bool" where
  "allowed_decision cfg p b =
     ((p < min_chord_change_prob cfg \<longrightarrow> \<not> b) \<and> (max_no_chord_change_prob cfg < p \<longrightarrow> b))"

text \<open>
  Modelled from the spec: the alternatives a frame generates (section 4.2): a frame that
  neither rule decides is ambiguous and branches into boundary and no boundary, in this
  order; a frame that one rule decides has that decision only. With the lower threshold
  above the upper one, a frame between them is decided both ways and has no alternative.
\<close>

definition boundary_choices :: "decoder_config \<Rightarrow> real \<Rightarrow> bool list" where
  "boundary_choices cfg p = filter (allowed_decision cfg p) [True, False]"

text \<open>
  Modelled from the spec: every assignment of boundary or no boundary to the frames that
  the thresholds allow, one decision per frame.
\<close>

fun boundary_vectors :: "decoder_config \<Rightarrow> real list \<Rightarrow> bool list list" where
  "boundary_vectors cfg [] = [[]]"
| "boundary_vectors cfg (p # ps) =
     concat (map (\<lambda>b. map ((#) b) (boundary_vectors cfg ps)) (boundary_choices cfg p))"

text \<open>
  Modelled from the spec: the chord ranges of a segmentation, half-open intervals of frame
  indices (section 3, ChordRange). \<open>cut_ranges start i bs\<close> is given the start of the
  range that is open, the index \<open>i\<close> of the next frame and the decisions from frame \<open>i\<close>
  on; a boundary at \<open>i\<close> closes the open range at \<open>i\<close> and opens the next. The first
  range starts at frame 0 whatever the decision there (section 4.2: the ranges always tile the
  timeline).
\<close>

fun cut_ranges :: "nat \<Rightarrow> nat \<Rightarrow> bool list \<Rightarrow> (nat \<times> nat) list" where
  "cut_ranges start i [] = [(start, i)]"
| "cut_ranges start i (b # bs) =
     (if b then (start, i) # cut_ranges i (Suc i) bs else cut_ranges start (Suc i) bs)"

definition ranges_of :: "bool list \<Rightarrow> (nat \<times> nat) list" where
  "ranges_of bs = (case bs of [] \<Rightarrow> [] | b # rest \<Rightarrow> cut_ranges 0 1 rest)"

text \<open>
  Modelled from the spec: the log-probability of a segmentation (section 4.2), the sum of
  \<open>log p[i]\<close> over the boundaries and of \<open>log (1 - p[i])\<close> over the other frames.
\<close>

fun segmentation_log_prob :: "real list \<Rightarrow> bool list \<Rightarrow> logp" where
  "segmentation_log_prob (p # ps) (b # bs) =
     lp_add (log_p (if b then p else 1 - p)) (segmentation_log_prob ps bs)"
| "segmentation_log_prob ps bs = Some 0"

text \<open>
  Modelled from the spec: a candidate the proposer returns, a segmentation (its decisions
  and its ranges) with its log-probability.
\<close>

record candidate =
  boundaries :: "bool list"
  ranges :: "(nat \<times> nat) list"
  seg_log_prob :: logp

definition make_candidate :: "real list \<Rightarrow> bool list \<Rightarrow> candidate" where
  "make_candidate ps bs =
     \<lparr>boundaries = bs, ranges = ranges_of bs, seg_log_prob = segmentation_log_prob ps bs\<rparr>"

text \<open>
  Modelled from the spec: the ranking of the candidates (section 4.2: a ranked set), by
  log-probability, highest first; candidates of equal log-probability keep their order.
\<close>

fun insert_ranked :: "candidate \<Rightarrow> candidate list \<Rightarrow> candidate list" where
  "insert_ranked c [] = [c]"
| "insert_ranked c (d # ds) =
     (if seg_log_prob d \<le> seg_log_prob c then c # d # ds else d # insert_ranked c ds)"

definition ranked :: "candidate list \<Rightarrow> candidate list" where
  "ranked cs = foldr insert_ranked cs []"

text \<open>
  Modelled from the spec: the range proposer \<open>get_chord_ranges\<close> (section 4.2), from the
  change probabilities of the frames to the ranked candidates, at most
  \<open>max_chord_branching_factor\<close> of them.
\<close>

definition get_chord_ranges :: "decoder_config \<Rightarrow> real list \<Rightarrow> candidate list" where
  "get_chord_ranges cfg ps =
     take (max_chord_branching_factor cfg)
       (ranked (map (make_candidate ps) (boundary_vectors cfg ps)))"

text \<open>
  Modelled from the spec: a list of ranges tiles \<open>[a, n)\<close> when the first starts at \<open>a\<close>,
  each is non-empty and starts where the one before ends, and the last ends at \<open>n\<close>
  (section 3, the invariant of ChordRange).
\<close>

fun tiles_from :: "nat \<Rightarrow> nat \<Rightarrow> (nat \<times> nat) list \<Rightarrow> bool" where
  "tiles_from a n [] = (a = n)"
| "tiles_from a n ((s, e) # rs) = (s = a \<and> s < e \<and> tiles_from e n rs)"

text \<open>Modelled from the spec: the number of ranges of a list that hold frame \<open>f\<close>.\<close>

definition times_covered :: "nat \<Rightarrow> (nat \<times> nat) list \<Rightarrow> nat" where
  "times_covered f rs = length (filter (\<lambda>(s, e). s \<le> f \<and> f < e) rs)"

subsection \<open>Decoding hypotheses\<close>

text \<open>
  Modelled from the spec: the class \<open>State\<close> (section 3): the current key, the chord
  history (label index and range), the key history (label index and start frame), the
  cumulative log-probability and the parent.
\<close>

datatype state =
  State (key: nat) (chord_history: "(nat \<times> (nat \<times> nat)) list")
    (key_history: "(nat \<times> nat) list") (log_prob: logp) (parent: "state option")

text \<open>
  Modelled from the spec: the root initializer (section 3, lifecycle): a State with an
  initial key, no chord yet, and the log-probability of the prior.
\<close>

definition root_state :: "nat \<Rightarrow> logp \<Rightarrow> state" where
  "root_state k lp = State k [] [(k, 0)] lp None"

text \<open>Modelled from the spec: the frame up to which a State's chord history reaches.\<close>

definition frontier :: "state \<Rightarrow> nat" where
  "frontier s = (if chord_history s = [] then 0 else snd (snd (last (chord_history s))))"

text \<open>
  Modelled from the spec: \<open>State.chord_transition(label, range_end, log_prob)\<close> (sections 3
  and 4.3; the notebook passes the label index, the end of the range and a log-probability).
  The new State's range starts where the history of the old one ends, and its
  log-probability is the sum of the old one and of the transition's.
\<close>

definition chord_transition :: "state \<Rightarrow> nat \<Rightarrow> nat \<Rightarrow> logp \<Rightarrow> state" where
  "chord_transition s label range_end lp =
     State (key s) (chord_history s @ [(label, (frontier s, range_end))]) (key_history s)
       (lp_add (log_prob s) lp) (Some s)"

text \<open>Modelled from the spec: the start frame of the last chord range of a State.\<close>

definition last_range_start :: "state \<Rightarrow> nat" where
  "last_range_start s =
     (if chord_history s = [] then 0 else fst (snd (last (chord_history s))))"

text \<open>
  Modelled from the spec: \<open>State.key_transition(label, log_prob)\<close> (sections 3 and 4.3):
  the key changes at the start of the chord range just added.
\<close>

definition key_transition :: "state \<Rightarrow> nat \<Rightarrow> logp \<Rightarrow> state" where
  "key_transition s label lp =
     State label (chord_history s) (key_history s @ [(label, last_range_start s)])
       (lp_add (log_prob s) lp) (Some s)"

text \<open>Modelled from the spec: the States a State extends, nearest first.\<close>

fun ancestors :: "state \<Rightarrow> state list" where
  "ancestors (State k ch kh lp None) = []"
| "ancestors (State k ch kh lp (Some p)) = p # ancestors p"

text \<open>
  Modelled from the spec: the States the decoder can build on a timeline with change
  probabilities \<open>ps\<close> (section 4.3). A root State is extended by a chord transition over a
  range that a candidate of the proposer starts at the State's frontier, and by key
  transitions; every transition adds the logarithm of a probability, which is at most 0
  (section 3, \<open>log_prob\<close>). Scores and pruning select among these States.
\<close>

inductive decoder_state :: "decoder_config \<Rightarrow> real list \<Rightarrow> state \<Rightarrow> bool"
  for cfg :: decoder_config and ps :: "real list" where
  root: "decoder_state cfg ps (root_state k lp)"
| chord:
    "decoder_state cfg ps s \<Longrightarrow> c \<in> set (get_chord_ranges cfg ps) \<Longrightarrow>
     (frontier s, range_end) \<in> set (ranges c) \<Longrightarrow> lp \<le> Some 0 \<Longrightarrow>
     decoder_state cfg ps (chord_transition s label range_end lp)"
| key_change:
    "decoder_state cfg ps s \<Longrightarrow> lp \<le> Some 0 \<Longrightarrow>
     decoder_state cfg ps (key_transition s k lp)"

text \<open>
  Modelled from the spec: the decoder is done with a State whose chord history covers the
  whole timeline of \<open>n\<close> frames (section 4.3, DONE).
\<close>

definition covers :: "nat \<Rightarrow> state \<Rightarrow> bool" where
  "covers n s = (frontier s = n)"

section \<open>Example inputs\<close>

text \<open>Small concrete corpora, libraries and checkpoint directories, on which the theorems below are run.\<close>

definition demo_piece :: "nat \<Rightarrow> score_piece" where
  "demo_piece n =
     \<lparr>get_chords = replicate n \<lparr>root = 0, key_tonic = 0, key_mode = MAJOR, chord_type = 0, inversion = 0\<rparr>,
      get_keys = [\<lparr>local_tonic = 0, global_tonic = 0, local_mode = MAJOR, global_mode = MAJOR\<rparr>],
      get_key_change_indices = [0]\<rparr>"

definition demo_corpus :: "(unit, unit, unit) corpus" where
  "demo_corpus =
     \<lparr>notes_df = [1 \<mapsto> (), 2 \<mapsto> (), 3 \<mapsto> ()],
      chords_df = [1 \<mapsto> (), 3 \<mapsto> ()],
      measures_df = [1 \<mapsto> (), 2 \<mapsto> (), 3 \<mapsto> ()]\<rparr>"

definition demo_selim_env :: "(unit, unit, unit) selim_env" where
  "demo_selim_env =
     \<lparr>selim_corpus = demo_corpus,
      get_score_piece_from_data_frames =
        (\<lambda>n c m use_relative name.
           Inr (demo_piece (if name = ''bach..b.tsv'' \<and> use_relative then 2 else 1))),
      to_pitch_type_MIDI = Inr,
      CHORD_TYPE_TO_STRING = [0 \<mapsto> ''M'']\<rparr>"

definition demo_row :: "int \<Rightarrow> string \<Rightarrow> file_row" where
  "demo_row i f = \<lparr>file_id = i, corpus_name = ''bach'', file_name = f\<rparr>"

definition demo_selim_state :: selim_state where
  "demo_selim_state = \<lparr>selim_log = [], selim_files = Map.empty\<rparr>"

definition demo_course_env :: "(unit, unit, unit) course_env" where
  "demo_course_env =
     \<lparr>course_corpus = demo_corpus,
      ScorePiece = (\<lambda>n c m r. Inr (demo_piece 1)),
      get_scale_degree_from_interval = (\<lambda>i m. Inr ''I'')\<rparr>"

definition demo_course_state :: course_state where
  "demo_course_state = \<lparr>course_log = [], key_files = Map.empty\<rparr>"

definition demo_selim_state_1 :: selim_state where
  "demo_selim_state_1 =
     demo_selim_state\<lparr>selim_files := [''bach..a.tsv'' \<mapsto>
       \<lparr>col_root = [0], col_relative_root = [0], col_relative_mode = [MAJOR], col_type = [''M''],
        col_inversion = [0], col_tonic = [0], col_mode = [MAJOR]\<rparr>]\<rparr>"

definition demo_selim_state_2 :: selim_state where
  "demo_selim_state_2 =
     \<lparr>selim_log = [NoDataCreated 2, LogException KeyError],
      selim_files = [''bach..a.tsv'' \<mapsto>
         \<lparr>col_root = [0], col_relative_root = [0], col_relative_mode = [MAJOR], col_type = [''M''],
          col_inversion = [0], col_tonic = [0], col_mode = [MAJOR]\<rparr>,
        ''bach..c.tsv'' \<mapsto>
         \<lparr>col_root = [0], col_relative_root = [0], col_relative_mode = [MAJOR], col_type = [''M''],
          col_inversion = [0], col_tonic = [0], col_mode = [MAJOR]\<rparr>]\<rparr>"

definition demo_course_state_1 :: course_state where
  "demo_course_state_1 = \<lparr>course_log = [], key_files = [''bach.csv'' \<mapsto> [''I:MAJOR'']]\<rparr>"

definition demo_loader_env :: "bool \<Rightarrow> (nat, nat \<times> string \<times> bool) loader_env" where
  "demo_loader_env have_csm =
     \<lparr>MODEL_CLASSES = [(''ccm'', 0), (''icm'', 1), (''csm'', 2)],
      glob = (\<lambda>p.
        if p = ''checkpoints/ccm/lightning_logs/version_*/checkpoints/*.ckpt''
        then [''checkpoints/ccm/lightning_logs/version_10/checkpoints/e.ckpt'',
              ''checkpoints/ccm/lightning_logs/version_9/checkpoints/e.ckpt'']
        else if p = ''checkpoints/csm/lightning_logs/version_*/checkpoints/*.ckpt'' \<and> have_csm
        then [''checkpoints/csm/lightning_logs/version_0/checkpoints/e.ckpt'']
        else []),
      load_from_checkpoint = (\<lambda>c p. Inr (c, p, False)),
      freeze = (\<lambda>(c, p, f). Inr (c, p, True)),
      SimpleInitialChordModel = (\<lambda>p. Inr (1, p, False))\<rparr>"

definition demo_loader_state :: "(nat \<times> string \<times> bool) loader_state" where
  "demo_loader_state = \<lparr>loader_log = [], models = Map.empty\<rparr>"

definition demo_loader_state_1 :: "(nat \<times> string \<times> bool) loader_state" where
  "demo_loader_state_1 =
     \<lparr>loader_log = [MultipleCheckpoints ''ccm''
         ''checkpoints/ccm/lightning_logs/version_9/checkpoints/e.ckpt''],
      models = [''ccm'' \<mapsto> (0, ''checkpoints/ccm/lightning_logs/version_9/checkpoints/e.ckpt'', True)]\<rparr>"

definition demo_config :: decoder_config where
  "demo_config =
     \<lparr>min_chord_change_prob = 0.2, max_no_chord_change_prob = 0.9, beam_width = 10,
      max_chord_branching_factor = 5, max_key_branching_factor = 2\<rparr>"

definition demo_probs :: "real list" where
  "demo_probs = [1, 0.1, 1, 0.1]"

definition demo_candidate :: candidate where
  "demo_candidate = make_candidate demo_probs [True, False, True, False]"

definition demo_state :: state where
  "demo_state =
     chord_transition
       (key_transition (chord_transition (root_state 0 (Some 0)) 7 2 (Some (- 1))) 3 (Some (- 2)))
       4 4 (Some (- 1))"

section \<open>The export loops: what a failing piece does\<close>

lemma selim_loop_append:
  "selim_loop env (xs @ ys) st =
     (case selim_loop env xs st of Done st' \<Rightarrow> selim_loop env ys st' | Raised e st' \<Rightarrow> Raised e st')"
proof (induction xs arbitrary: st)
  case Nil
  show ?case by simp
next
  case (Cons r rs)
  show ?case
  proof (cases "load_both env (file_id r) (piece_name r)")
    case (Inl e)
    then show ?thesis using Cons.IH by simp
  next
    case (Inr p)
    obtain rp lp where p: "p = (rp, lp)" by (cases p)
    show ?thesis
    proof (cases "fill_chord_data env (zip (get_chords rp) (get_chords lp)) empty_chord_data")
      case (Inl e)
      then show ?thesis using Inr p by simp
    next
      case (Inr d)
      then show ?thesis using \<open>load_both env (file_id r) (piece_name r) = Inr p\<close> p Cons.IH by simp
    qed
  qed
qed

lemma selim_loop_log_irrelevant:
  "selim_files st = selim_files st' \<Longrightarrow>
   error_of (selim_loop env rs st) = error_of (selim_loop env rs st') \<and>
   selim_files (state_of (selim_loop env rs st)) = selim_files (state_of (selim_loop env rs st'))"
proof (induction rs arbitrary: st st')
  case Nil
  then show ?case by simp
next
  case (Cons r rs)
  show ?case
  proof (cases "load_both env (file_id r) (piece_name r)")
    case (Inl e)
    show ?thesis
    proof (cases "is_Exception e")
      case True
      have "selim_files (st\<lparr>selim_log := selim_log st @ [NoDataCreated (file_id r), LogException e]\<rparr>)
          = selim_files (st'\<lparr>selim_log := selim_log st' @ [NoDataCreated (file_id r), LogException e]\<rparr>)"
        using Cons.prems by simp
      from Cons.IH[OF this] show ?thesis using Inl True by simp
    next
      case False
      then show ?thesis using Inl Cons.prems by simp
    qed
  next
    case (Inr p)
    obtain rp lp where p: "p = (rp, lp)" by (cases p)
    show ?thesis
    proof (cases "fill_chord_data env (zip (get_chords rp) (get_chords lp)) empty_chord_data")
      case (Inl e)
      then show ?thesis using Inr p Cons.prems by simp
    next
      case (Inr d)
      have "selim_files (st\<lparr>selim_files := (selim_files st)(piece_name r \<mapsto> d)\<rparr>)
          = selim_files (st'\<lparr>selim_files := (selim_files st')(piece_name r \<mapsto> d)\<rparr>)"
        using Cons.prems by simp
      from Cons.IH[OF this] show ?thesis
        using \<open>load_both env (file_id r) (piece_name r) = Inr p\<close> p Inr Cons.prems by simp
    qed
  qed
qed

lemma course_file_loop_append:
  "course_file_loop env c (xs @ ys) st =
     (case course_file_loop env c xs st of Done st' \<Rightarrow> course_file_loop env c ys st' | Raised e st' \<Rightarrow> Raised e st')"
proof (induction xs arbitrary: st)
  case Nil
  show ?case by simp
next
  case (Cons r rs)
  show ?case
  proof (cases "new_piece env r")
    case (Inl e)
    then show ?thesis using Cons.IH by simp
  next
    case (Inr piece)
    then show ?thesis
      by (cases "key_symbols env (get_keys piece)"; cases "get_keys piece") (simp_all add: Let_def)
  qed
qed

lemma course_file_loop_log_irrelevant:
  "key_files st = key_files st' \<Longrightarrow>
   error_of (course_file_loop env c rs st) = error_of (course_file_loop env c rs st') \<and>
   key_files (state_of (course_file_loop env c rs st)) = key_files (state_of (course_file_loop env c rs st'))"
proof (induction rs arbitrary: st st')
  case Nil
  then show ?case by simp
next
  case (Cons r rs)
  show ?case
  proof (cases "new_piece env r")
    case (Inl e)
    show ?thesis
    proof (cases "is_Exception e")
      case True
      have "key_files (st\<lparr>course_log := course_log st @ [NoDataCreated (file_id r), LogException e]\<rparr>)
          = key_files (st'\<lparr>course_log := course_log st' @ [NoDataCreated (file_id r), LogException e]\<rparr>)"
        using Cons.prems by simp
      from Cons.IH[OF this] show ?thesis using Inl True by simp
    next
      case False
      then show ?thesis using Inl Cons.prems by simp
    qed
  next
    case (Inr piece)
    then show ?thesis using Cons.prems
      by (cases "key_symbols env (get_keys piece)"; cases "get_keys piece") (simp_all add: Let_def)
  qed
qed

lemma selim_loop_keeps:
  "prefix (selim_log st) (selim_log (state_of (selim_loop env rs st))) \<and>
   (\<forall>name. name \<notin> piece_name ` set rs \<longrightarrow>
      selim_files (state_of (selim_loop env rs st)) name = selim_files st name)"
proof (induction rs arbitrary: st)
  case Nil
  show ?case by simp
next
  case (Cons r rs)
  show ?case
  proof (cases "load_both env (file_id r) (piece_name r)")
    case (Inl e)
    show ?thesis
    proof (cases "is_Exception e")
      case True
      let ?st = "st\<lparr>selim_log := selim_log st @ [NoDataCreated (file_id r), LogException e]\<rparr>"
      have run: "selim_loop env (r # rs) st = selim_loop env rs ?st" using Inl True by simp
      have "prefix (selim_log st) (selim_log ?st)" by simp
      moreover have "prefix (selim_log ?st) (selim_log (state_of (selim_loop env rs ?st)))"
        using Cons.IH[of ?st] by blast
      ultimately have "prefix (selim_log st) (selim_log (state_of (selim_loop env rs ?st)))"
        by (rule prefix_order.trans)
      moreover have "\<forall>name. name \<notin> piece_name ` set rs \<longrightarrow>
          selim_files (state_of (selim_loop env rs ?st)) name = selim_files st name"
        using Cons.IH[of ?st] by simp
      ultimately show ?thesis unfolding run by simp
    next
      case False
      then show ?thesis using Inl by simp
    qed
  next
    case (Inr p)
    obtain rp lp where p: "p = (rp, lp)" by (cases p)
    show ?thesis
    proof (cases "length (get_chords rp) \<noteq> length (get_chords lp)")
      case True
      then show ?thesis using Inr p by simp
    next
      case eq: False
      show ?thesis
      proof (cases "fill_chord_data env (zip (get_chords rp) (get_chords lp)) empty_chord_data")
        case (Inl e)
        then show ?thesis using Inr p eq by simp
      next
        case fd: (Inr d)
        let ?st = "st\<lparr>selim_files := (selim_files st)(piece_name r \<mapsto> d)\<rparr>"
        have run: "selim_loop env (r # rs) st = selim_loop env rs ?st"
          using Inr p eq fd by simp
        have "prefix (selim_log st) (selim_log (state_of (selim_loop env rs ?st)))"
          using Cons.IH[of ?st] by simp
        moreover have "\<forall>name. name \<notin> piece_name ` set (r # rs) \<longrightarrow>
            selim_files (state_of (selim_loop env rs ?st)) name = selim_files st name"
          using Cons.IH[of ?st] by simp
        ultimately show ?thesis unfolding run by simp
      qed
    qed
  qed
qed

lemma selim_skip_same_outcome:
  assumes "load_both env (file_id r) (piece_name r) = Inl e" "is_Exception e"
  shows "error_of (selim_loop env (pre @ r # post) st) = error_of (selim_loop env (pre @ post) st) \<and>
     selim_files (state_of (selim_loop env (pre @ r # post) st)) =
       selim_files (state_of (selim_loop env (pre @ post) st))"
proof (cases "selim_loop env pre st")
  case (Raised e' s)
  then show ?thesis by (simp add: selim_loop_append)
next
  case (Done st1)
  let ?st2 = "st1\<lparr>selim_log := selim_log st1 @ [NoDataCreated (file_id r), LogException e]\<rparr>"
  have a: "selim_loop env (pre @ r # post) st = selim_loop env post ?st2"
    using Done assms by (simp add: selim_loop_append)
  have b: "selim_loop env (pre @ post) st = selim_loop env post st1"
    using Done by (simp add: selim_loop_append)
  have "selim_files ?st2 = selim_files st1" by simp
  from selim_loop_log_irrelevant[OF this, of env post] show ?thesis unfolding a b .
qed

lemma course_file_skip_sim:
  assumes "new_piece env r = Inl e" "is_Exception e" "key_files st = key_files st'"
  shows "error_of (course_file_loop env c (pre @ r # post) st) =
       error_of (course_file_loop env c (pre @ post) st') \<and>
     key_files (state_of (course_file_loop env c (pre @ r # post) st)) =
       key_files (state_of (course_file_loop env c (pre @ post) st'))"
proof -
  note pre = course_file_loop_log_irrelevant[OF assms(3), of env c pre]
  show ?thesis
  proof (cases "course_file_loop env c pre st")
    case (Raised e1 s1)
    then obtain s1' where r': "course_file_loop env c pre st' = Raised e1 s1'"
      using pre by (cases "course_file_loop env c pre st'") simp_all
    show ?thesis using Raised r' pre by (simp add: course_file_loop_append)
  next
    case (Done s1)
    then obtain s1' where d': "course_file_loop env c pre st' = Done s1'"
      using pre by (cases "course_file_loop env c pre st'") simp_all
    let ?s2 = "s1\<lparr>course_log := course_log s1 @ [NoDataCreated (file_id r), LogException e]\<rparr>"
    have a: "course_file_loop env c (pre @ r # post) st = course_file_loop env c post ?s2"
      using Done assms(1,2) by (simp add: course_file_loop_append)
    have b: "course_file_loop env c (pre @ post) st' = course_file_loop env c post s1'"
      using d' by (simp add: course_file_loop_append)
    have "key_files ?s2 = key_files s1'" using pre Done d' by simp
    from course_file_loop_log_irrelevant[OF this, of env c post] show ?thesis unfolding a b .
  qed
qed

lemma course_loop_skip_sim:
  assumes "new_piece env r = Inl e" "is_Exception e" "key_files st = key_files st'"
  shows "error_of (course_loop env (pre @ r # post) cs st) =
       error_of (course_loop env (pre @ post) cs st') \<and>
     key_files (state_of (course_loop env (pre @ r # post) cs st)) =
       key_files (state_of (course_loop env (pre @ post) cs st'))"
  using assms(3)
proof (induction cs arbitrary: st st')
  case Nil
  then show ?case by simp
next
  case (Cons c cs)
  let ?P = "\<lambda>x. prefix c (corpus_name x)"
  let ?A = "course_file_loop env c (filter ?P (pre @ r # post)) st"
  let ?B = "course_file_loop env c (filter ?P (pre @ post)) st'"
  have inner: "error_of ?A = error_of ?B \<and> key_files (state_of ?A) = key_files (state_of ?B)"
  proof (cases "?P r")
    case True
    then have "filter ?P (pre @ r # post) = filter ?P pre @ r # filter ?P post" by simp
    moreover have "filter ?P (pre @ post) = filter ?P pre @ filter ?P post" by simp
    ultimately show ?thesis
      using course_file_skip_sim[OF assms(1,2) Cons.prems, of c "filter ?P pre" "filter ?P post"]
      by simp
  next
    case False
    then have "filter ?P (pre @ r # post) = filter ?P (pre @ post)" by simp
    then show ?thesis
      using course_file_loop_log_irrelevant[OF Cons.prems, of env c "filter ?P (pre @ post)"]
      by simp
  qed
  show ?case
  proof (cases ?A)
    case (Raised e1 s1)
    then obtain s1' where r': "?B = Raised e1 s1'" using inner by (cases ?B) simp_all
    show ?thesis using Raised r' inner by simp
  next
    case (Done s1)
    then obtain s1' where d': "?B = Done s1'" using inner by (cases ?B) simp_all
    have "key_files s1 = key_files s1'" using inner Done d' by simp
    from Cons.IH[OF this] show ?thesis using Done d' by simp
  qed
qed

lemma course_loop_single_failing:
  assumes "new_piece env r = Inl e" "is_Exception e"
  shows "course_loop env [r] cs st =
     Done (st\<lparr>course_log := course_log st @
       concat (map (\<lambda>c. if prefix c (corpus_name r)
                         then [NoDataCreated (file_id r), LogException e] else []) cs)\<rparr>)"
proof (induction cs arbitrary: st)
  case Nil
  show ?case by simp
next
  case (Cons c cs)
  show ?case
  proof (cases "prefix c (corpus_name r)")
    case True
    then show ?thesis using assms Cons.IH by simp
  next
    case False
    then show ?thesis using Cons.IH by simp
  qed
qed

text \<open>
  In the course-data loop a piece that is built always ends the run: the key file is opened
  and the statement that adds to \<open>key_labels\<close> raises.
\<close>

lemma built_piece_ends_course_loop:
  assumes "new_piece env r = Inr piece"
  shows "\<exists>e. course_file_loop env composer (r # rs) st =
           Raised e (st\<lparr>key_files := open_append (composer @ ''.csv'') (key_files st)\<rparr>)"
proof (cases "key_symbols env (get_keys piece)")
  case (Inl e)
  then show ?thesis using assms by (simp add: Let_def)
next
  case (Inr syms)
  then show ?thesis using assms by (cases "get_keys piece") (simp_all add: Let_def)
qed

text \<open>
  Claim C8. In the loop of \<open>Selim_project_data.ipynb\<close>, when the relative and the local piece
  of a file are both built and their chord lists differ in length, the run stops at that
  file with \<open>AssertionError\<close>: the state is the one the earlier files left (no log line
  for the file, no output for it), and no later file is processed.
\<close>

theorem chord_count_mismatch_is_fatal:
  assumes "selim_loop env pre st = Done st1"
    and "load_both env (file_id r) (piece_name r) = Inr (relative_piece, local_piece)"
    and "length (get_chords relative_piece) \<noteq> length (get_chords local_piece)"
  shows "selim_loop env (pre @ r # rest) st = Raised AssertionError st1"
  using assms by (simp add: selim_loop_append)

lemma demo_load_1: "load_both demo_selim_env 1 ''bach..a.tsv'' = Inr (demo_piece 1, demo_piece 1)"
  by (simp add: load_both_def load_piece_def loc_def demo_selim_env_def demo_corpus_def)

lemma demo_load_2: "load_both demo_selim_env 2 ''bach..m.tsv'' = Inl KeyError"
  by (simp add: load_both_def load_piece_def loc_def demo_selim_env_def demo_corpus_def)

lemma demo_load_3: "load_both demo_selim_env 3 ''bach..b.tsv'' = Inr (demo_piece 2, demo_piece 1)"
  by (simp add: load_both_def load_piece_def loc_def demo_selim_env_def demo_corpus_def)

lemma demo_fill_1:
  "fill_chord_data demo_selim_env (zip (get_chords (demo_piece 1)) (get_chords (demo_piece 1))) empty_chord_data
   = Inr \<lparr>col_root = [0], col_relative_root = [0], col_relative_mode = [MAJOR], col_type = [''M''],
      col_inversion = [0], col_tonic = [0], col_mode = [MAJOR]\<rparr>"
  by (simp add: demo_piece_def demo_selim_env_def empty_chord_data_def)

lemma demo_run_1:
  "selim_loop demo_selim_env [demo_row 1 ''a.tsv''] demo_selim_state =
     Done (demo_selim_state\<lparr>selim_files := [''bach..a.tsv'' \<mapsto>
       \<lparr>col_root = [0], col_relative_root = [0], col_relative_mode = [MAJOR], col_type = [''M''],
        col_inversion = [0], col_tonic = [0], col_mode = [MAJOR]\<rparr>]\<rparr>)"
  using demo_load_1 demo_fill_1
  by (simp add: demo_row_def piece_name_def demo_selim_state_def demo_piece_def)

text \<open>The theorem at a corpus of three files, the second with two chords against one.\<close>

theorem chord_count_mismatch_is_fatal_witness:
  "selim_loop demo_selim_env ([demo_row 1 ''a.tsv''] @ demo_row 3 ''b.tsv'' # [demo_row 1 ''a.tsv'']) demo_selim_state =
     Raised AssertionError (demo_selim_state\<lparr>selim_files := [''bach..a.tsv'' \<mapsto>
       \<lparr>col_root = [0], col_relative_root = [0], col_relative_mode = [MAJOR], col_type = [''M''],
        col_inversion = [0], col_tonic = [0], col_mode = [MAJOR]\<rparr>]\<rparr>)"
proof (rule chord_count_mismatch_is_fatal)
  show "selim_loop demo_selim_env [demo_row 1 ''a.tsv''] demo_selim_state =
     Done (demo_selim_state\<lparr>selim_files := [''bach..a.tsv'' \<mapsto>
       \<lparr>col_root = [0], col_relative_root = [0], col_relative_mode = [MAJOR], col_type = [''M''],
        col_inversion = [0], col_tonic = [0], col_mode = [MAJOR]\<rparr>]\<rparr>)"
    by (rule demo_run_1)
  show "load_both demo_selim_env (file_id (demo_row 3 ''b.tsv'')) (piece_name (demo_row 3 ''b.tsv''))
      = Inr (demo_piece 2, demo_piece 1)"
    using demo_load_3 by (simp add: demo_row_def piece_name_def)
  show "length (get_chords (demo_piece 2)) \<noteq> length (get_chords (demo_piece 1))"
    by (simp add: demo_piece_def)
qed

text \<open>
  Claim C9. In both export loops, when building the piece of one file raises an \<open>Exception\<close>:
  the run of that file alone ends normally and adds exactly the error line and the
  exception to the log, all else unchanged; the loop goes on with the remaining files
  from that state. After earlier files that ran through, the final log starts with their
  log followed by the two entries, and every output of the earlier files that no later
  file rewrites is in the final state as they left it. Whatever the earlier files do,
  the outcome and the outputs are those of the batch without the failing file. In the
  course-data notebook this holds of the loop over the files of one composer and of the
  whole double loop over composers: a batch of the failing file alone ends normally, with
  the two entries once for every composer whose name starts the file's corpus name.
\<close>

theorem failed_piece_is_logged_and_skipped:
  "(load_both env (file_id r) (piece_name r) = Inl e \<and> is_Exception e \<longrightarrow>
      selim_loop env [r] st =
        Done (st\<lparr>selim_log := selim_log st @ [NoDataCreated (file_id r), LogException e]\<rparr>) \<and>
      selim_loop env (r # post) st =
        selim_loop env post
          (st\<lparr>selim_log := selim_log st @ [NoDataCreated (file_id r), LogException e]\<rparr>) \<and>
      (\<forall>st1. selim_loop env pre st = Done st1 \<longrightarrow>
         selim_loop env (pre @ r # post) st =
           selim_loop env post
             (st1\<lparr>selim_log := selim_log st1 @ [NoDataCreated (file_id r), LogException e]\<rparr>) \<and>
         prefix (selim_log st1 @ [NoDataCreated (file_id r), LogException e])
           (selim_log (state_of (selim_loop env (pre @ r # post) st))) \<and>
         (\<forall>name. name \<notin> piece_name ` set post \<longrightarrow>
            selim_files (state_of (selim_loop env (pre @ r # post) st)) name = selim_files st1 name)) \<and>
      error_of (selim_loop env (pre @ r # post) st) = error_of (selim_loop env (pre @ post) st) \<and>
      selim_files (state_of (selim_loop env (pre @ r # post) st)) =
        selim_files (state_of (selim_loop env (pre @ post) st)))
   \<and>
   (new_piece cenv cr = Inl ce \<and> is_Exception ce \<longrightarrow>
      course_file_loop cenv composer [cr] cst =
        Done (cst\<lparr>course_log := course_log cst @ [NoDataCreated (file_id cr), LogException ce]\<rparr>) \<and>
      course_file_loop cenv composer (cr # cpost) cst =
        course_file_loop cenv composer cpost
          (cst\<lparr>course_log := course_log cst @ [NoDataCreated (file_id cr), LogException ce]\<rparr>) \<and>
      (\<forall>cst1. course_file_loop cenv composer cpre cst = Done cst1 \<longrightarrow>
         course_file_loop cenv composer (cpre @ cr # cpost) cst =
           course_file_loop cenv composer cpost
             (cst1\<lparr>course_log := course_log cst1 @ [NoDataCreated (file_id cr), LogException ce]\<rparr>)) \<and>
      course_loop cenv [cr] composers cst =
        Done (cst\<lparr>course_log := course_log cst @
          concat (map (\<lambda>c. if prefix c (corpus_name cr)
                            then [NoDataCreated (file_id cr), LogException ce] else []) composers)\<rparr>) \<and>
      error_of (course_loop cenv (cpre @ cr # cpost) composers cst) =
        error_of (course_loop cenv (cpre @ cpost) composers cst) \<and>
      key_files (state_of (course_loop cenv (cpre @ cr # cpost) composers cst)) =
        key_files (state_of (course_loop cenv (cpre @ cpost) composers cst)))"
proof -
  have selim_part:
    "selim_loop env [r] st =
        Done (st\<lparr>selim_log := selim_log st @ [NoDataCreated (file_id r), LogException e]\<rparr>) \<and>
      selim_loop env (r # post) st =
        selim_loop env post
          (st\<lparr>selim_log := selim_log st @ [NoDataCreated (file_id r), LogException e]\<rparr>) \<and>
      (\<forall>st1. selim_loop env pre st = Done st1 \<longrightarrow>
         selim_loop env (pre @ r # post) st =
           selim_loop env post
             (st1\<lparr>selim_log := selim_log st1 @ [NoDataCreated (file_id r), LogException e]\<rparr>) \<and>
         prefix (selim_log st1 @ [NoDataCreated (file_id r), LogException e])
           (selim_log (state_of (selim_loop env (pre @ r # post) st))) \<and>
         (\<forall>name. name \<notin> piece_name ` set post \<longrightarrow>
            selim_files (state_of (selim_loop env (pre @ r # post) st)) name = selim_files st1 name)) \<and>
      error_of (selim_loop env (pre @ r # post) st) = error_of (selim_loop env (pre @ post) st) \<and>
      selim_files (state_of (selim_loop env (pre @ r # post) st)) =
        selim_files (state_of (selim_loop env (pre @ post) st))"
    if h: "load_both env (file_id r) (piece_name r) = Inl e \<and> is_Exception e"
  proof -
    have ld: "load_both env (file_id r) (piece_name r) = Inl e" and ex: "is_Exception e"
      using h by simp_all
    have one: "selim_loop env [r] st =
        Done (st\<lparr>selim_log := selim_log st @ [NoDataCreated (file_id r), LogException e]\<rparr>)"
      using ld ex by simp
    have step: "selim_loop env (r # post) st =
        selim_loop env post
          (st\<lparr>selim_log := selim_log st @ [NoDataCreated (file_id r), LogException e]\<rparr>)"
      using ld ex by simp
    have after: "selim_loop env (pre @ r # post) st =
           selim_loop env post
             (st1\<lparr>selim_log := selim_log st1 @ [NoDataCreated (file_id r), LogException e]\<rparr>) \<and>
         prefix (selim_log st1 @ [NoDataCreated (file_id r), LogException e])
           (selim_log (state_of (selim_loop env (pre @ r # post) st))) \<and>
         (\<forall>name. name \<notin> piece_name ` set post \<longrightarrow>
            selim_files (state_of (selim_loop env (pre @ r # post) st)) name = selim_files st1 name)"
      if dn: "selim_loop env pre st = Done st1" for st1
    proof -
      let ?st2 = "st1\<lparr>selim_log := selim_log st1 @ [NoDataCreated (file_id r), LogException e]\<rparr>"
      have run: "selim_loop env (pre @ r # post) st = selim_loop env post ?st2"
        using dn ld ex by (simp add: selim_loop_append)
      note keeps = selim_loop_keeps[of ?st2 env post]
      have "prefix (selim_log st1 @ [NoDataCreated (file_id r), LogException e])
           (selim_log (state_of (selim_loop env post ?st2)))"
        using keeps by simp
      moreover have "\<forall>name. name \<notin> piece_name ` set post \<longrightarrow>
            selim_files (state_of (selim_loop env post ?st2)) name = selim_files st1 name"
        using keeps by simp
      ultimately show ?thesis unfolding run by simp
    qed
    note same = selim_skip_same_outcome[OF ld ex, of pre post st]
    from one step after same show ?thesis by blast
  qed
  have course_part:
    "course_file_loop cenv composer [cr] cst =
        Done (cst\<lparr>course_log := course_log cst @ [NoDataCreated (file_id cr), LogException ce]\<rparr>) \<and>
      course_file_loop cenv composer (cr # cpost) cst =
        course_file_loop cenv composer cpost
          (cst\<lparr>course_log := course_log cst @ [NoDataCreated (file_id cr), LogException ce]\<rparr>) \<and>
      (\<forall>cst1. course_file_loop cenv composer cpre cst = Done cst1 \<longrightarrow>
         course_file_loop cenv composer (cpre @ cr # cpost) cst =
           course_file_loop cenv composer cpost
             (cst1\<lparr>course_log := course_log cst1 @ [NoDataCreated (file_id cr), LogException ce]\<rparr>)) \<and>
      course_loop cenv [cr] composers cst =
        Done (cst\<lparr>course_log := course_log cst @
          concat (map (\<lambda>c. if prefix c (corpus_name cr)
                            then [NoDataCreated (file_id cr), LogException ce] else []) composers)\<rparr>) \<and>
      error_of (course_loop cenv (cpre @ cr # cpost) composers cst) =
        error_of (course_loop cenv (cpre @ cpost) composers cst) \<and>
      key_files (state_of (course_loop cenv (cpre @ cr # cpost) composers cst)) =
        key_files (state_of (course_loop cenv (cpre @ cpost) composers cst))"
    if h: "new_piece cenv cr = Inl ce \<and> is_Exception ce"
  proof -
    have np: "new_piece cenv cr = Inl ce" and ex: "is_Exception ce"
      using h by simp_all
    have one: "course_file_loop cenv composer [cr] cst =
        Done (cst\<lparr>course_log := course_log cst @ [NoDataCreated (file_id cr), LogException ce]\<rparr>)"
      using np ex by simp
    have step: "course_file_loop cenv composer (cr # cpost) cst =
        course_file_loop cenv composer cpost
          (cst\<lparr>course_log := course_log cst @ [NoDataCreated (file_id cr), LogException ce]\<rparr>)"
      using np ex by simp
    have after: "course_file_loop cenv composer (cpre @ cr # cpost) cst =
           course_file_loop cenv composer cpost
             (cst1\<lparr>course_log := course_log cst1 @ [NoDataCreated (file_id cr), LogException ce]\<rparr>)"
      if "course_file_loop cenv composer cpre cst = Done cst1" for cst1
      using that np ex by (simp add: course_file_loop_append)
    note batch = course_loop_single_failing[OF np ex, of composers cst]
    have "key_files cst = key_files cst" by simp
    note same = course_loop_skip_sim[OF np ex this, of cpre cpost composers]
    from one step after batch same show ?thesis by blast
  qed
  from selim_part course_part show ?thesis by blast
qed

lemma demo_new_piece_2: "new_piece demo_course_env (demo_row 2 f) = Inl KeyError"
  by (simp add: new_piece_def loc_def demo_course_env_def demo_corpus_def demo_row_def)

lemma demo_new_piece_1: "new_piece demo_course_env (demo_row 1 f) = Inr (demo_piece 1)"
  by (simp add: new_piece_def loc_def demo_course_env_def demo_corpus_def demo_row_def)

lemma demo_load_row_2:
  "load_both demo_selim_env (file_id (demo_row 2 ''m.tsv'')) (piece_name (demo_row 2 ''m.tsv'')) = Inl KeyError"
  using demo_load_2 by (simp add: demo_row_def piece_name_def)

lemma demo_load_c: "load_both demo_selim_env 1 ''bach..c.tsv'' = Inr (demo_piece 1, demo_piece 1)"
  by (simp add: load_both_def load_piece_def loc_def demo_selim_env_def demo_corpus_def)

lemma demo_run_c:
  "selim_loop demo_selim_env [demo_row 1 ''c.tsv'']
     (demo_selim_state_1\<lparr>selim_log := selim_log demo_selim_state_1 @
        [NoDataCreated (file_id (demo_row 2 ''m.tsv'')), LogException KeyError]\<rparr>) =
   Done demo_selim_state_2"
  using demo_load_c demo_fill_1
  by (simp add: demo_row_def piece_name_def demo_selim_state_def demo_selim_state_1_def
      demo_selim_state_2_def)

lemma demo_key_symbols:
  "key_symbols demo_course_env (get_keys (demo_piece 1)) = Inr [''I:MAJOR'']"
  by (simp add: demo_piece_def demo_course_env_def)

lemma demo_course_built:
  "course_file_loop demo_course_env ''bach'' (demo_row 1 f # rs) st =
     Raised TypeError (st\<lparr>key_files := open_append ''bach.csv'' (key_files st)\<rparr>)"
  using demo_new_piece_1[of f] demo_key_symbols
  by (simp add: Let_def demo_piece_def)

text \<open>
  The theorem at a file whose chord table is missing. In the first loop it stands between
  two files that are written; in the course-data loop it is the whole batch of two
  composers, and then the third of three files for one composer, the last of which is built
  (and stops the run there, see above), on a key file that holds a line from before.
\<close>

theorem failed_piece_is_logged_and_skipped_witness:
  "selim_loop demo_selim_env ([demo_row 1 ''a.tsv''] @ demo_row 2 ''m.tsv'' # [demo_row 1 ''c.tsv''])
       demo_selim_state = Done demo_selim_state_2
   \<and> course_loop demo_course_env [demo_row 2 ''m.tsv''] [''bach'', ''mozart''] demo_course_state_1 =
       Done (demo_course_state_1\<lparr>course_log := [NoDataCreated 2, LogException KeyError]\<rparr>)
   \<and> course_file_loop demo_course_env ''bach''
         ([demo_row 2 ''k.tsv''] @ demo_row 2 ''m.tsv'' # [demo_row 1 ''a.tsv'']) demo_course_state_1 =
       Raised TypeError
         (demo_course_state_1\<lparr>course_log := [NoDataCreated 2, LogException KeyError,
                                                NoDataCreated 2, LogException KeyError]\<rparr>)
   \<and> error_of (course_loop demo_course_env
         ([demo_row 2 ''k.tsv''] @ demo_row 2 ''m.tsv'' # [demo_row 1 ''a.tsv''])
         [''bach'', ''mozart''] demo_course_state_1) = Some TypeError"
proof -
  note t = failed_piece_is_logged_and_skipped
    [where env = demo_selim_env and pre = "[demo_row 1 ''a.tsv'']" and st = demo_selim_state
       and r = "demo_row 2 ''m.tsv''" and e = KeyError and post = "[demo_row 1 ''c.tsv'']"
       and cenv = demo_course_env and composer = "''bach''" and cpre = "[demo_row 2 ''k.tsv'']"
       and cst = demo_course_state_1 and cr = "demo_row 2 ''m.tsv''" and ce = KeyError
       and cpost = "[demo_row 1 ''a.tsv'']" and composers = "[''bach'', ''mozart'']"]
  have a: "load_both demo_selim_env (file_id (demo_row 2 ''m.tsv'')) (piece_name (demo_row 2 ''m.tsv'')) =
        Inl KeyError \<and> is_Exception KeyError"
    using demo_load_row_2 by simp
  have b: "new_piece demo_course_env (demo_row 2 ''m.tsv'') = Inl KeyError \<and> is_Exception KeyError"
    using demo_new_piece_2 by simp
  have pre: "selim_loop demo_selim_env [demo_row 1 ''a.tsv''] demo_selim_state = Done demo_selim_state_1"
    using demo_run_1 by (simp add: demo_selim_state_1_def)
  from t a pre have "selim_loop demo_selim_env
       ([demo_row 1 ''a.tsv''] @ demo_row 2 ''m.tsv'' # [demo_row 1 ''c.tsv'']) demo_selim_state =
     selim_loop demo_selim_env [demo_row 1 ''c.tsv'']
       (demo_selim_state_1\<lparr>selim_log := selim_log demo_selim_state_1 @
           [NoDataCreated (file_id (demo_row 2 ''m.tsv'')), LogException KeyError]\<rparr>)"
    by blast
  then have w1: "selim_loop demo_selim_env
       ([demo_row 1 ''a.tsv''] @ demo_row 2 ''m.tsv'' # [demo_row 1 ''c.tsv'']) demo_selim_state =
     Done demo_selim_state_2"
    using demo_run_c by simp
  from t b have "course_loop demo_course_env [demo_row 2 ''m.tsv''] [''bach'', ''mozart'']
       demo_course_state_1 =
     Done (demo_course_state_1\<lparr>course_log := course_log demo_course_state_1 @
       concat (map (\<lambda>c. if prefix c (corpus_name (demo_row 2 ''m.tsv''))
         then [NoDataCreated (file_id (demo_row 2 ''m.tsv'')), LogException KeyError] else [])
         [''bach'', ''mozart''])\<rparr>)"
    by blast
  then have w2: "course_loop demo_course_env [demo_row 2 ''m.tsv''] [''bach'', ''mozart'']
       demo_course_state_1 =
     Done (demo_course_state_1\<lparr>course_log := [NoDataCreated 2, LogException KeyError]\<rparr>)"
    by (simp add: demo_row_def demo_course_state_1_def)
  have cpre: "course_file_loop demo_course_env ''bach'' [demo_row 2 ''k.tsv''] demo_course_state_1 =
     Done (demo_course_state_1\<lparr>course_log := [NoDataCreated 2, LogException KeyError]\<rparr>)"
    using demo_new_piece_2[of "''k.tsv''"] by (simp add: demo_row_def demo_course_state_1_def)
  from t b cpre have "course_file_loop demo_course_env ''bach''
         ([demo_row 2 ''k.tsv''] @ demo_row 2 ''m.tsv'' # [demo_row 1 ''a.tsv'']) demo_course_state_1 =
     course_file_loop demo_course_env ''bach'' [demo_row 1 ''a.tsv'']
       (demo_course_state_1\<lparr>course_log := [NoDataCreated 2, LogException KeyError]\<rparr>
          \<lparr>course_log := course_log
             (demo_course_state_1\<lparr>course_log := [NoDataCreated 2, LogException KeyError]\<rparr>) @
             [NoDataCreated (file_id (demo_row 2 ''m.tsv'')), LogException KeyError]\<rparr>)"
    by blast
  then have w3: "course_file_loop demo_course_env ''bach''
         ([demo_row 2 ''k.tsv''] @ demo_row 2 ''m.tsv'' # [demo_row 1 ''a.tsv'']) demo_course_state_1 =
       Raised TypeError
         (demo_course_state_1\<lparr>course_log := [NoDataCreated 2, LogException KeyError,
                                                NoDataCreated 2, LogException KeyError]\<rparr>)"
    unfolding demo_course_built
    by (simp add: demo_row_def demo_course_state_1_def open_append_def)
  have without: "error_of (course_loop demo_course_env ([demo_row 2 ''k.tsv''] @ [demo_row 1 ''a.tsv''])
         [''bach'', ''mozart''] demo_course_state_1) = Some TypeError"
    using demo_new_piece_2[of "''k.tsv''"] demo_course_built[of "''a.tsv''" "[]"]
    by (simp add: demo_row_def)
  from t b have "error_of (course_loop demo_course_env
         ([demo_row 2 ''k.tsv''] @ demo_row 2 ''m.tsv'' # [demo_row 1 ''a.tsv''])
         [''bach'', ''mozart''] demo_course_state_1) =
       error_of (course_loop demo_course_env ([demo_row 2 ''k.tsv''] @ [demo_row 1 ''a.tsv''])
         [''bach'', ''mozart''] demo_course_state_1)"
    by blast
  then have w4: "error_of (course_loop demo_course_env
         ([demo_row 2 ''k.tsv''] @ demo_row 2 ''m.tsv'' # [demo_row 1 ''a.tsv''])
         [''bach'', ''mozart''] demo_course_state_1) = Some TypeError"
    using without by simp
  from w1 w2 w3 w4 show ?thesis by blast
qed

section \<open>The checkpoint loader: which file is loaded\<close>

lemma last_sorted_Max:
  fixes xs :: "'a::linorder list"
  shows "sorted xs \<Longrightarrow> xs \<noteq> [] \<Longrightarrow> last xs = Max (set xs)"
proof (induction xs)
  case Nil
  then show ?case by simp
next
  case (Cons x xs)
  show ?case
  proof (cases "xs = []")
    case True
    then show ?thesis by simp
  next
    case False
    have "last xs = Max (set xs)" using Cons False by simp
    moreover have "\<forall>y\<in>set xs. x \<le> y" using Cons.prems by simp
    then have "x \<le> Max (set xs)" using False Max_in[of "set xs"] by simp
    ultimately show ?thesis using False by (simp add: max_def)
  qed
qed

lemma chosen_checkpoint:
  fixes g :: "string list"
  assumes "g \<noteq> []"
  shows "(if length (sort g) = 1 then sort g ! 0 else last (sort g)) = Max (set g)"
proof -
  have ne: "sort g \<noteq> []" using assms by (metis length_sort length_0_conv)
  have l: "last (sort g) = Max (set g)"
    using last_sorted_Max[of "sort g"] ne by simp
  show ?thesis
  proof (cases "length (sort g) = 1")
    case True
    then obtain x where "sort g = [x]" by (cases "sort g") auto
    then show ?thesis using l by simp
  next
    case False
    then show ?thesis using l by simp
  qed
qed

lemma fill_model_paths_lookup:
  "fill_model_paths names paths n =
     (if n \<in> set names \<and> n \<noteq> ''icm'' then Some (checkpoint_pattern n) else paths n)"
  by (induction names arbitrary: paths) auto

lemma model_paths_lookup:
  "n \<in> set names \<Longrightarrow> n \<noteq> ''icm'' \<Longrightarrow> model_paths names n = Some (checkpoint_pattern n)"
  by (simp add: model_paths_def fill_model_paths_lookup)

lemma load_one_found:
  assumes "paths model_name = Some pattern" "glob env pattern \<noteq> []"
  shows "load_one env paths model_name model_class st =
     (let checkpoint = Max (set (glob env pattern));
          st1 = st\<lparr>loader_log := loader_log st @
                  [if length (glob env pattern) = 1
                   then LoadingCheckpoint checkpoint model_name
                   else MultipleCheckpoints model_name checkpoint]\<rparr>
      in case load_from_checkpoint env model_class checkpoint of
           Inl e \<Rightarrow> Raised e st1
         | Inr m \<Rightarrow>
             (case freeze env m of
                Inl e \<Rightarrow> Raised e (st1\<lparr>models := (models st1)(model_name \<mapsto> m)\<rparr>)
              | Inr frozen \<Rightarrow> Done (st1\<lparr>models := (models st1)(model_name \<mapsto> frozen)\<rparr>)))"
proof (cases "length (glob env pattern) = Suc 0")
  case True
  have "sort (glob env pattern) ! 0 = Max (set (glob env pattern))"
    using chosen_checkpoint[OF assms(2)] True by simp
  then show ?thesis
    unfolding load_one_def Let_def using assms True by (simp split: sum.splits)
next
  case False
  have "last (sort (glob env pattern)) = Max (set (glob env pattern))"
    using chosen_checkpoint[OF assms(2)] False by simp
  then show ?thesis
    unfolding load_one_def Let_def using assms False by (simp split: sum.splits)
qed

lemma load_one_missing:
  assumes "paths model_name = Some pattern" "glob env pattern = []"
  shows "load_one env paths model_name model_class st =
     Raised (NameError ''sys'')
       (st\<lparr>loader_log := loader_log st @ [NoCheckpointsFound model_name pattern]\<rparr>)"
  unfolding load_one_def Let_def using assms by simp

lemma load_loop_append:
  "load_loop env paths (xs @ ys) st =
     (case load_loop env paths xs st of
        Done st' \<Rightarrow> load_loop env paths ys st'
      | Raised e st' \<Rightarrow> Raised e st')"
proof (induction xs arbitrary: st)
  case Nil
  show ?case by simp
next
  case (Cons x xs)
  obtain n c where x: "x = (n, c)" by (cases x)
  show ?case
  proof (cases "n = ''icm''")
    case True
    then show ?thesis using Cons.IH x by simp
  next
    case False
    then show ?thesis using Cons.IH x
      by (cases "load_one env paths n c st") simp_all
  qed
qed

lemma load_loop_snoc:
  assumes "load_loop env paths pre st = Done st1" "n \<noteq> ''icm''"
  shows "load_loop env paths (pre @ [(n, c)]) st = load_one env paths n c st1"
proof -
  have "load_loop env paths (pre @ [(n, c)]) st = load_loop env paths [(n, c)] st1"
    using assms(1) by (simp add: load_loop_append)
  also have "\<dots> = load_one env paths n c st1"
    using assms(2) by (cases "load_one env paths n c st1") simp_all
  finally show ?thesis .
qed

lemma load_one_Done:
  assumes "load_one env paths n c st = Done st1" "paths n = Some (checkpoint_pattern n)"
  shows "glob env (checkpoint_pattern n) \<noteq> [] \<and>
     (\<exists>m frozen.
        load_from_checkpoint env c (Max (set (glob env (checkpoint_pattern n)))) = Inr m \<and>
        freeze env m = Inr frozen \<and> models st1 = (models st)(n \<mapsto> frozen))"
proof (cases "glob env (checkpoint_pattern n) = []")
  case True
  then show ?thesis
    using assms load_one_missing[of paths n "checkpoint_pattern n" env c st] by simp
next
  case False
  note found = load_one_found[of paths n "checkpoint_pattern n" env c st, OF assms(2) False]
  show ?thesis
  proof (cases "load_from_checkpoint env c (Max (set (glob env (checkpoint_pattern n))))")
    case (Inl e)
    then show ?thesis using assms(1) found by (simp add: Let_def)
  next
    case (Inr m)
    show ?thesis
    proof (cases "freeze env m")
      case (Inl e)
      then show ?thesis using assms(1) found Inr by (simp add: Let_def)
    next
      case fr: (Inr frozen)
      then have "models st1 = (models st)(n \<mapsto> frozen)"
        using assms(1) found Inr by (auto simp: Let_def)
      then show ?thesis using False Inr fr by simp
    qed
  qed
qed

lemma load_loop_Done:
  assumes "load_loop env paths items st = Done st'"
    and "distinct (map fst items)"
    and "\<forall>n\<in>fst ` set items. n \<noteq> ''icm'' \<longrightarrow> paths n = Some (checkpoint_pattern n)"
  shows "(\<forall>n. n \<notin> fst ` set items \<or> n = ''icm'' \<longrightarrow> models st' n = models st n) \<and>
     (\<forall>(n, c)\<in>set items. n \<noteq> ''icm'' \<longrightarrow>
        glob env (checkpoint_pattern n) \<noteq> [] \<and>
        (\<exists>m frozen.
           load_from_checkpoint env c (Max (set (glob env (checkpoint_pattern n)))) = Inr m \<and>
           freeze env m = Inr frozen \<and> models st' n = Some frozen))"
  using assms
proof (induction items arbitrary: st)
  case Nil
  then show ?case by simp
next
  case (Cons x items)
  obtain n c where x: "x = (n, c)" by (cases x)
  have d: "distinct (map fst items)" and nn: "n \<notin> fst ` set items"
    using Cons.prems(2) x by auto
  have p: "\<forall>k\<in>fst ` set items. k \<noteq> ''icm'' \<longrightarrow> paths k = Some (checkpoint_pattern k)"
    using Cons.prems(3) by simp
  show ?case
  proof (cases "n = ''icm''")
    case True
    then have "load_loop env paths items st = Done st'" using Cons.prems(1) x by simp
    from Cons.IH[OF this d p] show ?thesis using x True by auto
  next
    case False
    then obtain st1 where one: "load_one env paths n c st = Done st1"
      and rest: "load_loop env paths items st1 = Done st'"
      using Cons.prems(1) x by (cases "load_one env paths n c st") simp_all
    have pn: "paths n = Some (checkpoint_pattern n)" using Cons.prems(3) x False by simp
    from load_one_Done[OF one pn] obtain m frozen where
      g: "glob env (checkpoint_pattern n) \<noteq> []" and
      l: "load_from_checkpoint env c (Max (set (glob env (checkpoint_pattern n)))) = Inr m" and
      f: "freeze env m = Inr frozen" and
      m1: "models st1 = (models st)(n \<mapsto> frozen)" by blast
    note ih = Cons.IH[OF rest d p]
    have keep: "models st' n = Some frozen" using ih nn m1 by simp
    have other: "\<forall>k. k \<notin> fst ` set (x # items) \<or> k = ''icm'' \<longrightarrow> models st' k = models st k"
      using ih m1 x False by auto
    have here: "\<forall>(k, c')\<in>set (x # items). k \<noteq> ''icm'' \<longrightarrow>
        glob env (checkpoint_pattern k) \<noteq> [] \<and>
        (\<exists>m frozen.
           load_from_checkpoint env c' (Max (set (glob env (checkpoint_pattern k)))) = Inr m \<and>
           freeze env m = Inr frozen \<and> models st' k = Some frozen)"
      using ih g l f keep x by auto
    show ?thesis using other here by blast
  qed
qed

lemma load_models_Done:
  assumes "load_models env st = Done st'"
  shows "\<exists>st2. load_loop env (model_paths (map fst (MODEL_CLASSES env))) (MODEL_CLASSES env) st = Done st2 \<and>
            (\<forall>n. n \<noteq> ''icm'' \<longrightarrow> models st' n = models st2 n)"
proof (cases "load_loop env (model_paths (map fst (MODEL_CLASSES env))) (MODEL_CLASSES env) st")
  case (Raised e s)
  then show ?thesis using assms by (simp add: load_models_def)
next
  case (Done st2)
  have "\<forall>n. n \<noteq> ''icm'' \<longrightarrow> models st' n = models st2 n"
    using assms Done
    by (auto simp: load_models_def Let_def split: option.splits sum.splits)
  then show ?thesis using Done by blast
qed

lemma load_models_Raised:
  assumes "load_loop env (model_paths (map fst (MODEL_CLASSES env))) (MODEL_CLASSES env) st = Raised e st'"
  shows "load_models env st = Raised e st'"
  using assms by (simp add: load_models_def)

text \<open>
  The selection. Once the entries before it are loaded, an entry other than \<open>"icm"\<close> with
  at least one match is loaded from the greatest matching path in the order of \<open>sorted\<close>
  (a function of the set of matches alone), stored, and frozen in place.
\<close>

lemma checkpoint_selection_step:
  assumes "MODEL_CLASSES env = pre @ (model_name, model_class) # post"
    and "model_name \<noteq> ''icm''"
    and pre: "load_loop env (model_paths (map fst (MODEL_CLASSES env))) pre st = Done st1"
    and gne: "glob env (checkpoint_pattern model_name) \<noteq> []"
  shows "load_loop env (model_paths (map fst (MODEL_CLASSES env)))
                (pre @ [(model_name, model_class)]) st =
              (let checkpoint = Max (set (glob env (checkpoint_pattern model_name)));
                   st2 = st1\<lparr>loader_log := loader_log st1 @
                          [if length (glob env (checkpoint_pattern model_name)) = 1
                           then LoadingCheckpoint checkpoint model_name
                           else MultipleCheckpoints model_name checkpoint]\<rparr>
               in case load_from_checkpoint env model_class checkpoint of
                    Inl e \<Rightarrow> Raised e st2
                  | Inr m \<Rightarrow>
                      (case freeze env m of
                         Inl e \<Rightarrow> Raised e (st2\<lparr>models := (models st2)(model_name \<mapsto> m)\<rparr>)
                       | Inr frozen \<Rightarrow>
                           Done (st2\<lparr>models := (models st2)(model_name \<mapsto> frozen)\<rparr>)))"
proof -
  let ?paths = "model_paths (map fst (MODEL_CLASSES env))"
  have mem: "model_name \<in> set (map fst (MODEL_CLASSES env))" using assms(1) by simp
  have pn: "?paths model_name = Some (checkpoint_pattern model_name)"
    using model_paths_lookup[OF mem assms(2)] .
  have "load_loop env ?paths (pre @ [(model_name, model_class)]) st =
      load_one env ?paths model_name model_class st1"
    by (rule load_loop_snoc[OF pre assms(2)])
  also note load_one_found[of ?paths model_name "checkpoint_pattern model_name" env
      model_class st1, OF pn gne]
  finally show ?thesis .
qed

text \<open>
  When the loader cell runs to its end, every entry other than \<open>"icm"\<close> had a match, and
  the dictionary holds its model, loaded from the greatest matching path and frozen.
\<close>

lemma checkpoint_selection_cell:
  assumes "distinct (map fst (MODEL_CLASSES env))"
    and "MODEL_CLASSES env = pre @ (model_name, model_class) # post"
    and "model_name \<noteq> ''icm''"
    and dn: "load_models env st = Done st'"
  shows "glob env (checkpoint_pattern model_name) \<noteq> [] \<and>
            (\<exists>m frozen.
               load_from_checkpoint env model_class
                 (Max (set (glob env (checkpoint_pattern model_name)))) = Inr m \<and>
               freeze env m = Inr frozen \<and> models st' model_name = Some frozen)"
proof -
  let ?paths = "model_paths (map fst (MODEL_CLASSES env))"
  have mem: "(model_name, model_class) \<in> set (MODEL_CLASSES env)" using assms(2) by simp
  have paths: "\<forall>n\<in>fst ` set (MODEL_CLASSES env). n \<noteq> ''icm'' \<longrightarrow> ?paths n = Some (checkpoint_pattern n)"
    using model_paths_lookup[of _ "map fst (MODEL_CLASSES env)"] by auto
  from load_models_Done[OF dn] obtain st2 where
    l: "load_loop env ?paths (MODEL_CLASSES env) st = Done st2" and
    k: "\<forall>n. n \<noteq> ''icm'' \<longrightarrow> models st' n = models st2 n" by blast
  note inv = load_loop_Done[OF l assms(1) paths, THEN conjunct2, rule_format, OF mem]
  have "glob env (checkpoint_pattern model_name) \<noteq> [] \<and>
        (\<exists>m frozen.
           load_from_checkpoint env model_class
             (Max (set (glob env (checkpoint_pattern model_name)))) = Inr m \<and>
           freeze env m = Inr frozen \<and> models st2 model_name = Some frozen)"
    using inv assms(3) by simp
  moreover have "models st' model_name = models st2 model_name" using k assms(3) by simp
  ultimately show ?thesis by simp
qed

text \<open>
  Claim C10, where the code departs from it. When no checkpoint matches the pattern of an
  entry of \<open>MODEL_CLASSES\<close> other than \<open>"icm"\<close>, the loader cell never runs to its end; once
  the entries before it are loaded, it logs the error and stops with \<open>NameError\<close>, raised
  where \<open>sys.exit(2)\<close> names the module that no cell imports, with no later model loaded
  and without the exit of status 2 that the call was written to make.
\<close>

theorem missing_checkpoint_raises_NameError:
  assumes "MODEL_CLASSES env = pre @ (model_name, model_class) # post"
    and "model_name \<noteq> ''icm''"
    and "glob env (checkpoint_pattern model_name) = []"
  shows "(\<exists>e st2. load_models env st = Raised e st2) \<and>
         (\<forall>st1. load_loop env (model_paths (map fst (MODEL_CLASSES env))) pre st = Done st1 \<longrightarrow>
            load_models env st =
              Raised (NameError ''sys'')
                (st1\<lparr>loader_log := loader_log st1 @
                   [NoCheckpointsFound model_name (checkpoint_pattern model_name)]\<rparr>))"
proof -
  let ?paths = "model_paths (map fst (MODEL_CLASSES env))"
  have mem: "model_name \<in> set (map fst (MODEL_CLASSES env))" using assms(1) by simp
  have pn: "?paths model_name = Some (checkpoint_pattern model_name)"
    using model_paths_lookup[OF mem assms(2)] .
  have one: "\<And>s. load_one env ?paths model_name model_class s =
      Raised (NameError ''sys'')
        (s\<lparr>loader_log := loader_log s @
            [NoCheckpointsFound model_name (checkpoint_pattern model_name)]\<rparr>)"
    using load_one_missing[of ?paths model_name "checkpoint_pattern model_name" env] pn assms(3)
    by simp
  have step: "\<And>s. load_loop env ?paths ((model_name, model_class) # post) s =
      Raised (NameError ''sys'')
        (s\<lparr>loader_log := loader_log s @
            [NoCheckpointsFound model_name (checkpoint_pattern model_name)]\<rparr>)"
    using one assms(2) by simp
  have whole: "load_loop env ?paths (MODEL_CLASSES env) st =
      (case load_loop env ?paths pre st of
         Done s \<Rightarrow> Raised (NameError ''sys'')
           (s\<lparr>loader_log := loader_log s @
              [NoCheckpointsFound model_name (checkpoint_pattern model_name)]\<rparr>)
       | Raised e s \<Rightarrow> Raised e s)"
  proof -
    have "load_loop env ?paths (MODEL_CLASSES env) st =
        load_loop env ?paths (pre @ (model_name, model_class) # post) st"
      using assms(1) by simp
    also have "\<dots> =
        (case load_loop env ?paths pre st of
           Done s \<Rightarrow> load_loop env ?paths ((model_name, model_class) # post) s
         | Raised e s \<Rightarrow> Raised e s)"
      by (rule load_loop_append)
    also have "\<dots> =
        (case load_loop env ?paths pre st of
           Done s \<Rightarrow> Raised (NameError ''sys'')
             (s\<lparr>loader_log := loader_log s @
                [NoCheckpointsFound model_name (checkpoint_pattern model_name)]\<rparr>)
         | Raised e s \<Rightarrow> Raised e s)"
      by (cases "load_loop env ?paths pre st") (simp_all only: outcome.case step)
    finally show ?thesis .
  qed
  show ?thesis
  proof (cases "load_loop env ?paths pre st")
    case (Done s)
    then have "load_models env st = Raised (NameError ''sys'')
           (s\<lparr>loader_log := loader_log s @
              [NoCheckpointsFound model_name (checkpoint_pattern model_name)]\<rparr>)"
      using whole load_models_Raised[of env st] by simp
    then show ?thesis using Done by simp
  next
    case (Raised e s)
    then have "load_models env st = Raised e s"
      using whole load_models_Raised[of env st] by simp
    then show ?thesis using Raised by simp
  qed
qed

lemma demo_pattern_ccm:
  "checkpoint_pattern ''ccm'' = ''checkpoints/ccm/lightning_logs/version_*/checkpoints/*.ckpt''"
  by (simp add: checkpoint_pattern_def os_path_join_def join_step_def)

lemma demo_pattern_csm:
  "checkpoint_pattern ''csm'' = ''checkpoints/csm/lightning_logs/version_*/checkpoints/*.ckpt''"
  by (simp add: checkpoint_pattern_def os_path_join_def join_step_def)

lemma demo_Max: "Max (set [''checkpoints/ccm/lightning_logs/version_10/checkpoints/e.ckpt'',
              ''checkpoints/ccm/lightning_logs/version_9/checkpoints/e.ckpt'']) =
              ''checkpoints/ccm/lightning_logs/version_9/checkpoints/e.ckpt''"
  by (simp add: max_def less_eq_char_def)

lemma demo_glob_ccm:
  "glob (demo_loader_env b) (checkpoint_pattern ''ccm'') =
     [''checkpoints/ccm/lightning_logs/version_10/checkpoints/e.ckpt'',
      ''checkpoints/ccm/lightning_logs/version_9/checkpoints/e.ckpt'']"
  by (simp add: demo_pattern_ccm demo_loader_env_def)

lemma demo_glob_csm:
  "glob (demo_loader_env b) (checkpoint_pattern ''csm'') =
     (if b then [''checkpoints/csm/lightning_logs/version_0/checkpoints/e.ckpt''] else [])"
  by (simp add: demo_pattern_csm demo_loader_env_def)

lemma demo_paths:
  "model_paths (map fst (MODEL_CLASSES (demo_loader_env b))) ''ccm'' = Some (checkpoint_pattern ''ccm'')"
  "model_paths (map fst (MODEL_CLASSES (demo_loader_env b))) ''csm'' = Some (checkpoint_pattern ''csm'')"
  "model_paths (map fst (MODEL_CLASSES (demo_loader_env b))) ''icm'' = Some ''checkpoints/icm/initial_chord_prior.json''"
  by (simp_all add: model_paths_def demo_loader_env_def os_path_join_def join_step_def)

lemma demo_load_ccm:
  "load_one (demo_loader_env b) (model_paths (map fst (MODEL_CLASSES (demo_loader_env b)))) ''ccm'' 0
      demo_loader_state = Done demo_loader_state_1"
proof -
  have g: "glob (demo_loader_env b) (checkpoint_pattern ''ccm'') \<noteq> []"
    by (simp add: demo_glob_ccm)
  have l: "load_from_checkpoint (demo_loader_env b) = (\<lambda>c p. Inr (c, p, False))"
    and f: "freeze (demo_loader_env b) = (\<lambda>(c, p, f). Inr (c, p, True))"
    by (simp_all add: demo_loader_env_def)
  note t = load_one_found[of "model_paths (map fst (MODEL_CLASSES (demo_loader_env b)))" "''ccm''"
      "checkpoint_pattern ''ccm''" "demo_loader_env b" 0 demo_loader_state, OF demo_paths(1) g]
  show ?thesis
    unfolding t demo_glob_ccm demo_Max l f Let_def
    by (simp add: demo_loader_state_def demo_loader_state_1_def)
qed

lemma demo_load_pre:
  "load_loop (demo_loader_env b) (model_paths (map fst (MODEL_CLASSES (demo_loader_env b))))
      [(''ccm'', 0), (''icm'', 1)] demo_loader_state = Done demo_loader_state_1"
  using demo_load_ccm[of b] by simp

text \<open>
  The theorem at a directory with two versions of one model (\<open>version_9\<close> sorts after
  \<open>version_10\<close> and is the one loaded) and no checkpoint of another.
\<close>

theorem missing_checkpoint_raises_NameError_witness:
  "load_models (demo_loader_env False) demo_loader_state =
     Raised (NameError ''sys'')
       (demo_loader_state_1\<lparr>loader_log := loader_log demo_loader_state_1 @
          [NoCheckpointsFound ''csm'' (checkpoint_pattern ''csm'')]\<rparr>)"
proof -
  have c: "MODEL_CLASSES (demo_loader_env False) = [(''ccm'', 0), (''icm'', 1)] @ (''csm'', 2) # []"
    by (simp add: demo_loader_env_def)
  have n: "''csm'' \<noteq> ''icm''" by simp
  have g: "glob (demo_loader_env False) (checkpoint_pattern ''csm'') = []"
    by (simp add: demo_glob_csm)
  from missing_checkpoint_raises_NameError[OF c n g, where st = demo_loader_state,
      THEN conjunct2, rule_format, OF demo_load_pre[of False]]
  show ?thesis .
qed


section \<open>The range proposer and the decoding hypotheses\<close>

lemma tiles_from_le: "tiles_from a n rs \<Longrightarrow> a \<le> n"
proof (induction rs arbitrary: a)
  case Nil
  then show ?case by simp
next
  case (Cons r rs)
  obtain s e where r: "r = (s, e)" by (cases r)
  have "e \<le> n" using Cons r by simp
  then show ?case using Cons.prems r by simp
qed

lemma tiles_from_member:
  "tiles_from a n rs \<Longrightarrow> (s, e) \<in> set rs \<Longrightarrow> a \<le> s \<and> s < e \<and> e \<le> n"
proof (induction rs arbitrary: a)
  case Nil
  then show ?case by simp
next
  case (Cons r rs)
  obtain s' e' where r: "r = (s', e')" by (cases r)
  have t: "tiles_from e' n rs" and a: "s' = a" and lt: "s' < e'" using Cons.prems(1) r by simp_all
  show ?case
  proof (cases "(s, e) = (s', e')")
    case True
    then show ?thesis using a lt tiles_from_le[OF t] by simp
  next
    case False
    then have "(s, e) \<in> set rs" using Cons.prems(2) r by auto
    from Cons.IH[OF t this] show ?thesis using a lt by simp
  qed
qed

lemma tiles_from_snoc:
  "tiles_from a m rs \<Longrightarrow> m < e \<Longrightarrow> tiles_from a e (rs @ [(m, e)])"
proof (induction rs arbitrary: a)
  case Nil
  then show ?case by simp
next
  case (Cons r rs)
  obtain s' e' where r: "r = (s', e')" by (cases r)
  show ?case using Cons r by simp
qed

lemma tiles_from_times_covered:
  "tiles_from a n rs \<Longrightarrow> times_covered f rs = (if a \<le> f \<and> f < n then 1 else 0)"
proof (induction rs arbitrary: a)
  case Nil
  then show ?case by (simp add: times_covered_def)
next
  case (Cons r rs)
  obtain s e where r: "r = (s, e)" by (cases r)
  have t: "tiles_from e n rs" and a: "s = a" and lt: "s < e" using Cons.prems r by simp_all
  have rest: "times_covered f rs = (if e \<le> f \<and> f < n then 1 else 0)" by (rule Cons.IH[OF t])
  have en: "e \<le> n" by (rule tiles_from_le[OF t])
  have "times_covered f (r # rs) = (if s \<le> f \<and> f < e then 1 else 0) + times_covered f rs"
    using r by (simp add: times_covered_def)
  then show ?case using rest a lt en by auto
qed

lemma cut_ranges_tiles:
  "start < i \<Longrightarrow> tiles_from start (i + length bs) (cut_ranges start i bs)"
proof (induction bs arbitrary: start i)
  case Nil
  then show ?case by simp
next
  case (Cons b bs)
  have a: "tiles_from i (Suc i + length bs) (cut_ranges i (Suc i) bs)"
    by (rule Cons.IH) simp
  have b: "tiles_from start (Suc i + length bs) (cut_ranges start (Suc i) bs)"
    by (rule Cons.IH) (use Cons.prems in simp)
  show ?case using a b Cons.prems by simp
qed

lemma ranges_of_tiles: "tiles_from 0 (length bs) (ranges_of bs)"
proof (cases bs)
  case Nil
  then show ?thesis by (simp add: ranges_of_def)
next
  case (Cons b rest)
  have "tiles_from 0 (1 + length rest) (cut_ranges 0 1 rest)" by (rule cut_ranges_tiles) simp
  then show ?thesis using Cons by (simp add: ranges_of_def)
qed

lemma boundary_vectors_member:
  "bs \<in> set (boundary_vectors cfg ps) \<Longrightarrow>
     length bs = length ps \<and> (\<forall>i<length ps. allowed_decision cfg (ps ! i) (bs ! i))"
proof (induction ps arbitrary: bs)
  case Nil
  then show ?case by simp
next
  case (Cons p ps)
  from Cons.prems obtain b rest where bs: "bs = b # rest"
    and b: "b \<in> set (boundary_choices cfg p)"
    and rest: "rest \<in> set (boundary_vectors cfg ps)"
    by auto
  note ih = Cons.IH[OF rest]
  have b': "allowed_decision cfg p b" using b unfolding boundary_choices_def set_filter by blast
  have "\<forall>i<length (p # ps). allowed_decision cfg ((p # ps) ! i) (bs ! i)"
  proof (intro allI impI)
    fix i assume "i < length (p # ps)"
    then show "allowed_decision cfg ((p # ps) ! i) (bs ! i)"
      using bs b' ih by (cases i) simp_all
  qed
  then show ?case using bs ih by simp
qed

lemma set_insert_ranked: "set (insert_ranked c ds) = insert c (set ds)"
  by (induction ds) auto

lemma set_ranked: "set (ranked cs) = set cs"
  unfolding ranked_def by (induction cs) (simp_all add: set_insert_ranked)

lemma get_chord_ranges_member:
  assumes "c \<in> set (get_chord_ranges cfg ps)"
  shows "\<exists>bs\<in>set (boundary_vectors cfg ps). c = make_candidate ps bs"
proof -
  have "c \<in> set (ranked (map (make_candidate ps) (boundary_vectors cfg ps)))"
    using assms unfolding get_chord_ranges_def by (rule in_set_takeD)
  then show ?thesis by (auto simp: set_ranked)
qed

lemma candidate_tiles:
  assumes "c \<in> set (get_chord_ranges cfg ps)"
  shows "tiles_from 0 (length ps) (ranges c)"
proof -
  from get_chord_ranges_member[OF assms] obtain bs where
    bs: "bs \<in> set (boundary_vectors cfg ps)" and c: "c = make_candidate ps bs" by blast
  have "length bs = length ps" using boundary_vectors_member[OF bs] by simp
  then show ?thesis using ranges_of_tiles[of bs] c by (simp add: make_candidate_def)
qed

lemma frontier_chord_transition [simp]: "frontier (chord_transition s l e lp) = e"
  by (simp add: frontier_def chord_transition_def)

lemma frontier_key_transition [simp]: "frontier (key_transition s k lp) = frontier s"
  by (simp add: frontier_def key_transition_def)

lemma chord_history_chord_transition [simp]:
  "chord_history (chord_transition s l e lp) = chord_history s @ [(l, (frontier s, e))]"
  by (simp add: chord_transition_def)

lemma chord_history_key_transition [simp]:
  "chord_history (key_transition s k lp) = chord_history s"
  by (simp add: key_transition_def)

lemma decoder_state_tiles:
  "decoder_state cfg ps s \<Longrightarrow>
     tiles_from 0 (frontier s) (map snd (chord_history s)) \<and> frontier s \<le> length ps"
proof (induction rule: decoder_state.induct)
  case (root k lp)
  show ?case by (simp add: root_state_def frontier_def)
next
  case (chord s c range_end lp label)
  have "tiles_from 0 (length ps) (ranges c)" by (rule candidate_tiles[OF chord.hyps(2)])
  from tiles_from_member[OF this chord.hyps(3)]
  have lt: "frontier s < range_end" and le: "range_end \<le> length ps" by simp_all
  have "tiles_from 0 range_end (map snd (chord_history s) @ [(frontier s, range_end)])"
    using chord.IH lt by (simp add: tiles_from_snoc)
  then show ?case using le by simp
next
  case (key_change s lp k)
  then show ?case by simp
qed

lemma lp_add_le: "lp \<le> Some 0 \<Longrightarrow> lp_add a lp \<le> a"
  by (cases a; cases lp) simp_all

lemma decoder_state_ancestors:
  "decoder_state cfg ps s \<Longrightarrow> a \<in> set (ancestors s) \<Longrightarrow> log_prob s \<le> log_prob a"
proof (induction arbitrary: a rule: decoder_state.induct)
  case (root k lp)
  then show ?case by (simp add: root_state_def)
next
  case (chord s c range_end lp label)
  have step: "log_prob (chord_transition s label range_end lp) \<le> log_prob s"
    using lp_add_le[OF chord.hyps(4)] by (simp add: chord_transition_def)
  have "a = s \<or> a \<in> set (ancestors s)" using chord.prems by (simp add: chord_transition_def)
  then show ?case
  proof
    assume "a = s"
    then show ?thesis using step by simp
  next
    assume "a \<in> set (ancestors s)"
    then have "log_prob s \<le> log_prob a" by (rule chord.IH)
    then show ?thesis using step by (rule order_trans[rotated])
  qed
next
  case (key_change s lp k)
  have step: "log_prob (key_transition s k lp) \<le> log_prob s"
    using lp_add_le[OF key_change.hyps(2)] by (simp add: key_transition_def)
  have "a = s \<or> a \<in> set (ancestors s)" using key_change.prems by (simp add: key_transition_def)
  then show ?case
  proof
    assume "a = s"
    then show ?thesis using step by simp
  next
    assume "a \<in> set (ancestors s)"
    then have "log_prob s \<le> log_prob a" by (rule key_change.IH)
    then show ?thesis using step by (rule order_trans[rotated])
  qed
qed

text \<open>
  The scenarios of section 8 of the specification, run on the model: the forced split, the
  single chord and the single ambiguous frame.
\<close>

lemma scenario_forced_split:
  "map ranges (get_chord_ranges demo_config [1, 0.1, 1, 0.1]) = [[(0, 2), (2, 4)]]"
  by (simp add: demo_config_def boundary_choices_def allowed_decision_def get_chord_ranges_def
      ranked_def make_candidate_def ranges_of_def)

lemma scenario_single_chord:
  "map ranges (get_chord_ranges demo_config [1, 0, 0, 0]) = [[(0, 4)]]"
  by (simp add: demo_config_def boundary_choices_def allowed_decision_def get_chord_ranges_def
      ranked_def make_candidate_def ranges_of_def)

lemma scenario_ambiguous_frame:
  "map boundaries (get_chord_ranges demo_config [0.5]) = [[True], [False]]"
  by (simp add: demo_config_def boundary_choices_def allowed_decision_def get_chord_ranges_def
      ranked_def make_candidate_def ranges_of_def log_p_def)

text \<open>
  Claim C1. On a timeline of at least one frame, the chord ranges in the history of every State
  the decoder can build and that covers the timeline are non-empty, each starts where the
  one before ends, the first starts at 0 and the last ends at the number of frames: every
  frame of the timeline lies in exactly one of them and no other frame in any. The same
  holds of the ranges of every candidate that \<open>get_chord_ranges\<close> returns.
\<close>

theorem chord_ranges_tile_the_timeline:
  assumes "1 \<le> length ps"
  shows "(decoder_state cfg ps s \<and> covers (length ps) s \<longrightarrow>
            tiles_from 0 (length ps) (map snd (chord_history s)) \<and>
            (\<forall>f. times_covered f (map snd (chord_history s)) = (if f < length ps then 1 else 0)))
       \<and> (c \<in> set (get_chord_ranges cfg ps) \<longrightarrow>
            tiles_from 0 (length ps) (ranges c) \<and>
            (\<forall>f. times_covered f (ranges c) = (if f < length ps then 1 else 0)))"
proof (intro conjI impI)
  assume h: "decoder_state cfg ps s \<and> covers (length ps) s"
  then have "tiles_from 0 (frontier s) (map snd (chord_history s))"
    using decoder_state_tiles by blast
  then show t: "tiles_from 0 (length ps) (map snd (chord_history s))"
    using h by (simp add: covers_def)
  show "\<forall>f. times_covered f (map snd (chord_history s)) = (if f < length ps then 1 else 0)"
    using tiles_from_times_covered[OF t] by simp
next
  assume "c \<in> set (get_chord_ranges cfg ps)"
  then show t: "tiles_from 0 (length ps) (ranges c)" by (rule candidate_tiles)
  show "\<forall>f. times_covered f (ranges c) = (if f < length ps then 1 else 0)"
    using tiles_from_times_covered[OF t] by simp
qed

lemma demo_get_chord_ranges: "get_chord_ranges demo_config demo_probs = [demo_candidate]"
  by (simp add: get_chord_ranges_def demo_config_def demo_probs_def demo_candidate_def
      boundary_choices_def allowed_decision_def ranked_def)

lemma demo_candidate_ranges: "ranges demo_candidate = [(0, 2), (2, 4)]"
  by (simp add: demo_candidate_def make_candidate_def ranges_of_def)

lemma demo_decoder_state: "decoder_state demo_config demo_probs demo_state"
proof -
  let ?s0 = "root_state 0 (Some 0)"
  let ?s1 = "chord_transition ?s0 7 2 (Some (- 1))"
  let ?s2 = "key_transition ?s1 3 (Some (- 2))"
  have c: "demo_candidate \<in> set (get_chord_ranges demo_config demo_probs)"
    by (simp add: demo_get_chord_ranges)
  have s0: "decoder_state demo_config demo_probs ?s0" by (rule decoder_state.root)
  have "(frontier ?s0, 2) \<in> set (ranges demo_candidate)"
    by (simp add: demo_candidate_ranges frontier_def root_state_def)
  from decoder_state.chord[OF s0 c this, of "Some (- 1)" 7]
  have s1: "decoder_state demo_config demo_probs ?s1" by simp
  from decoder_state.key_change[OF s1, of "Some (- 2)" 3]
  have s2: "decoder_state demo_config demo_probs ?s2" by simp
  have "(frontier ?s2, 4) \<in> set (ranges demo_candidate)"
    by (simp add: demo_candidate_ranges)
  from decoder_state.chord[OF s2 c this, of "Some (- 1)" 4]
  show ?thesis by (simp add: demo_state_def)
qed

text \<open>The theorem at the timeline with change probabilities 1, 0.1, 1, 0.1 and a State of two chords.\<close>

theorem chord_ranges_tile_the_timeline_witness:
  "map snd (chord_history demo_state) = [(0, 2), (2, 4)] \<and>
   tiles_from 0 4 (map snd (chord_history demo_state)) \<and>
   (\<forall>f. times_covered f (map snd (chord_history demo_state)) = (if f < 4 then 1 else 0)) \<and>
   tiles_from 0 4 (ranges demo_candidate) \<and>
   (\<forall>f. times_covered f (ranges demo_candidate) = (if f < 4 then 1 else 0))"
proof -
  have n: "length demo_probs = 4" by (simp add: demo_probs_def)
  have l: "1 \<le> length demo_probs" by (simp add: demo_probs_def)
  have h: "map snd (chord_history demo_state) = [(0, 2), (2, 4)]"
    by (simp add: demo_state_def frontier_def root_state_def)
  have cv: "covers (length demo_probs) demo_state"
    by (simp add: covers_def demo_state_def demo_probs_def)
  have c: "demo_candidate \<in> set (get_chord_ranges demo_config demo_probs)"
    by (simp add: demo_get_chord_ranges)
  from chord_ranges_tile_the_timeline[OF l, of demo_config demo_state demo_candidate]
    demo_decoder_state cv c h
  show ?thesis unfolding n by simp
qed

text \<open>
  Claim C3. A State made by \<open>chord_transition\<close> or \<open>key_transition\<close> with the logarithm of a
  probability (a value that is at most 0) has the State it extends as its parent and a
  \<open>log_prob\<close> that is at most the parent's; along the parent chain of every State the
  decoder can build, \<open>log_prob\<close> never increases.
\<close>

theorem log_prob_never_increases:
  "(lp \<le> Some 0 \<longrightarrow>
      log_prob (chord_transition s label range_end lp) \<le> log_prob s \<and>
      parent (chord_transition s label range_end lp) = Some s \<and>
      log_prob (key_transition s k lp) \<le> log_prob s \<and>
      parent (key_transition s k lp) = Some s)
   \<and> (decoder_state cfg ps t \<and> a \<in> set (ancestors t) \<longrightarrow> log_prob t \<le> log_prob a)"
proof (intro conjI impI)
  assume "lp \<le> Some 0"
  then have "lp_add (log_prob s) lp \<le> log_prob s" by (rule lp_add_le)
  then show "log_prob (chord_transition s label range_end lp) \<le> log_prob s"
    and "log_prob (key_transition s k lp) \<le> log_prob s"
    by (simp_all add: chord_transition_def key_transition_def)
  show "parent (chord_transition s label range_end lp) = Some s"
    by (simp add: chord_transition_def)
  show "parent (key_transition s k lp) = Some s"
    by (simp add: key_transition_def)
next
  assume "decoder_state cfg ps t \<and> a \<in> set (ancestors t)"
  then show "log_prob t \<le> log_prob a" using decoder_state_ancestors by blast
qed

text \<open>The theorem at transitions that add \<open>-1\<close> and minus infinity, and at the State of two chords.\<close>

theorem log_prob_never_increases_witness:
  "log_prob (chord_transition (root_state 0 (Some 0)) 7 2 (Some (- 1))) \<le> log_prob (root_state 0 (Some 0)) \<and>
   log_prob (key_transition (root_state 0 (Some 0)) 3 None) \<le> log_prob (root_state 0 (Some 0)) \<and>
   log_prob demo_state \<le> log_prob (root_state 0 (Some 0)) \<and>
   log_prob demo_state = Some (- 4)"
proof -
  have a: "(Some (- 1) :: logp) \<le> Some 0" by simp
  have b: "(None :: logp) \<le> Some 0" by simp
  have anc: "root_state 0 (Some 0) \<in> set (ancestors demo_state)"
    by (simp add: demo_state_def chord_transition_def key_transition_def root_state_def)
  have v: "log_prob demo_state = Some (- 4)"
    by (simp add: demo_state_def chord_transition_def key_transition_def root_state_def)
  from log_prob_never_increases[of "Some (- 1)" "root_state 0 (Some 0)" 7 2 3
      demo_config demo_probs demo_state "root_state 0 (Some 0)"]
    log_prob_never_increases[of None "root_state 0 (Some 0)" 7 2 3
      demo_config demo_probs demo_state "root_state 0 (Some 0)"]
    a b anc demo_decoder_state v
  show ?thesis by blast
qed

end
